theory Spec2Isabelle
  imports Complex_Main "HOL-Library.Word"
begin

section \<open>Numbers, vectors and buffers\<close>

text \<open>
  The program computes with JavaScript numbers. They are modelled as \<^typ>\<open>real\<close>: the
  development verifies the arithmetic the code writes down, not its IEEE rounding, and
  it has no NaN or infinity. Every statement below that compares or equates computed
  coordinates is a statement about this exact arithmetic.

  A \<open>BufferAttribute\<close> of item size 3 is a list of triples, one of item size 2 a list of
  pairs; \<open>getX(i)\<close>, \<open>getY(i)\<close>, \<open>getZ(i)\<close> read the components of item \<open>i\<close>.
\<close>

type_synonym vec3 = "real \<times> real \<times> real"
type_synonym vec2 = "real \<times> real"

definition getX :: "vec3 \<Rightarrow> real" where
  "getX p = fst p"

definition getY :: "vec3 \<Rightarrow> real" where
  "getY p = fst (snd p)"

definition getZ :: "vec3 \<Rightarrow> real" where
  "getZ p = snd (snd p)"

text \<open>\<open>Vector3.addScaledVector(v, s)\<close>: componentwise \<open>this + v * s\<close>.\<close>

definition addScaledVector :: "vec3 \<Rightarrow> vec3 \<Rightarrow> real \<Rightarrow> vec3" where
  "addScaledVector p n s = (getX p + getX n * s, getY p + getY n * s, getZ p + getZ n * s)"

definition distance3 :: "vec3 \<Rightarrow> vec3 \<Rightarrow> real" where
  "distance3 p q = sqrt ((getX p - getX q)\<^sup>2 + (getY p - getY q)\<^sup>2 + (getZ p - getZ q)\<^sup>2)"

definition vlength :: "vec3 \<Rightarrow> real" where
  "vlength n = sqrt ((getX n)\<^sup>2 + (getY n)\<^sup>2 + (getZ n)\<^sup>2)"

definition planar_radius :: "vec3 \<Rightarrow> real" where
  "planar_radius p = sqrt (getX p * getX p + getZ p * getZ p)"

text \<open>
  A \<open>BufferGeometry\<close>: the position attribute, and the normal, uv and index, which a
  geometry may lack (\<open>geometry.attributes.uv\<close> is then undefined).
\<close>

record geometry =
  position :: "vec3 list"
  normal :: "vec3 list option"
  uv :: "vec2 list option"
  index :: "nat list option"

text \<open>
  The attributes of a geometry built by three.js all have the same count. The loops
  below read item \<open>i\<close> of the normal and uv for every \<open>i\<close> below the position count,
  so their theorems are stated for geometries of this form.
\<close>

definition attributes_aligned :: "geometry \<Rightarrow> bool" where
  "attributes_aligned g =
     ((case normal g of None \<Rightarrow> True | Some ns \<Rightarrow> length ns = length (position g)) \<and>
      (case uv g of None \<Rightarrow> True | Some uvs \<Rightarrow> length uvs = length (position g)))"

text \<open>
  An \<open>HTMLCanvasElement\<close>: its size, its bitmap as the RGBA bytes that
  \<open>getImageData(0, 0, width, height).data\<close> yields (a \<open>Uint8ClampedArray\<close>, read by
  index), and whether \<open>getContext('2d')\<close> yields a context or null.
\<close>

record canvas =
  canvas_width :: nat
  canvas_height :: nat
  bitmap :: "nat \<Rightarrow> 8 word"
  has2d :: bool

datatype error = IndexSizeError | TypeError | ImageLoadError

section \<open>applyDisplacement\<close>

text \<open>
  The function of the geometry utilities in its current revision,
  \<open>src/unnamed/part_001\<close> lines 340 to 422 (\<open>src/unnamed/part_002\<close> has the same text at
  lines 163 to 268); the line numbers in this section are those of \<open>part_001\<close>. The
  earlier revision at lines 97 to 198 of \<open>part_001\<close> differs in the transfer from
  intensity to \<open>heightValue\<close>, which it takes linear between 0.40 and 0.60.
\<close>

text \<open>JavaScript's \<open>%\<close> on integers: the remainder takes the sign of the dividend.\<close>

definition js_rem :: "int \<Rightarrow> int \<Rightarrow> int" where
  "js_rem a b = sgn a * (\<bar>a\<bar> mod \<bar>b\<bar>)"

definition edgeStart :: real where
  "edgeStart = 0.40"

definition edgeEnd :: real where
  "edgeEnd = 0.60"

text \<open>
  Lines 384 to 391: the pixel under \<open>(u, v)\<close>, wrapped into the canvas, and its red
  byte as a fraction of 255.
\<close>

definition rawHeight_at :: "nat \<Rightarrow> nat \<Rightarrow> (nat \<Rightarrow> 8 word) \<Rightarrow> real \<Rightarrow> real \<Rightarrow> real" where
  "rawHeight_at w h data u v =
     (let px0 = js_rem \<lfloor>u * real w\<rfloor> (int w);
          py0 = js_rem \<lfloor>v * real h\<rfloor> (int h);
          px = (if px0 < 0 then px0 + int w else px0);
          py = (if py0 < 0 then py0 + int h else py0);
          idx = (py * int w + px) * 4
      in real (unat (data (nat idx))) / 255.0)"

text \<open>Lines 393 to 400: the transfer from sampled intensity to \<open>heightValue\<close>.\<close>

definition heightValue_of :: "real \<Rightarrow> real" where
  "heightValue_of rawHeight =
     (if rawHeight > edgeStart
      then (let t = min (max ((rawHeight - edgeStart) / (edgeEnd - edgeStart)) 0) 1
            in t * t * (3 - 2 * t))
      else 0)"

text \<open>
  One iteration of the loop over the vertices (lines 363 to 418), on the position
  buffer: each \<open>continue\<close> leaves the buffer as it is, and \<open>setXYZ\<close> writes item \<open>i\<close>.
\<close>

definition displace_vertex ::
  "vec3 list \<Rightarrow> vec2 list \<Rightarrow> nat \<Rightarrow> nat \<Rightarrow> (nat \<Rightarrow> 8 word) \<Rightarrow> real \<Rightarrow> real \<Rightarrow>
   nat \<Rightarrow> vec3 list \<Rightarrow> vec3 list" where
  "displace_vertex ns uvs w h data displacementScale minRadiusThreshold i pos =
     (let x = getX (pos ! i);
          z = getZ (pos ! i);
          r = sqrt (x * x + z * z)
      in if r < minRadiusThreshold then pos
         else let ny = getY (ns ! i)
         in if \<bar>ny\<bar> > 0.5 then pos
         else let u = fst (uvs ! i);
                  v = snd (uvs ! i)
         in if v < 0.05 \<or> v > 0.95 then pos
         else let heightValue = heightValue_of (rawHeight_at w h data u v)
         in if heightValue > 0
            then pos[i := addScaledVector (pos ! i) (ns ! i) (heightValue * displacementScale)]
            else pos)"

text \<open>
  \<open>applyDisplacement\<close> mutates the geometry in place and returns nothing, so the model
  returns the geometry after the call, and the exception if one was thrown.
  \<open>getImageData\<close> throws an \<open>IndexSizeError\<close> for a canvas of width or height 0; this
  happens before the loop, so the geometry is then as it was. The last statement,
  \<open>computeVertexNormals\<close>, is code of three.js: it is the parameter \<open>cvn\<close>, which
  gets the displaced geometry and yields the new normal attribute.
\<close>

definition applyDisplacement ::
  "(geometry \<Rightarrow> vec3 list) \<Rightarrow> geometry \<Rightarrow> canvas \<Rightarrow> real \<Rightarrow> real \<Rightarrow> geometry \<times> error option" where
  "applyDisplacement cvn g heightMap displacementScale minRadiusThreshold =
     (case uv g of None \<Rightarrow> (g, None) | Some uvs \<Rightarrow>
      (case normal g of None \<Rightarrow> (g, None) | Some ns \<Rightarrow>
       if \<not> has2d heightMap then (g, None)
       else if canvas_width heightMap = 0 \<or> canvas_height heightMap = 0 then (g, Some IndexSizeError)
       else
         let g' = g\<lparr>position :=
                     fold (displace_vertex ns uvs (canvas_width heightMap) (canvas_height heightMap)
                             (bitmap heightMap) displacementScale minRadiusThreshold)
                          [0..<length (position g)] (position g)\<rparr>
         in (g'\<lparr>normal := Some (cvn g')\<rparr>, None)))"

text \<open>The three skip rules of the loop, for vertex \<open>i\<close> of a geometry.\<close>

definition skip_rule :: "geometry \<Rightarrow> real \<Rightarrow> nat \<Rightarrow> bool" where
  "skip_rule g minRadiusThreshold i =
     (planar_radius (position g ! i) < minRadiusThreshold \<or>
      (case normal g of None \<Rightarrow> False | Some ns \<Rightarrow> \<bar>getY (ns ! i)\<bar> > 0.5) \<or>
      (case uv g of None \<Rightarrow> False | Some uvs \<Rightarrow> snd (uvs ! i) < 0.05 \<or> snd (uvs ! i) > 0.95))"

text \<open>
  The weight the loop gives vertex \<open>i\<close>: 0 where the call returns early or a skip rule
  fires, and the \<open>heightValue\<close> of the sampled pixel otherwise.
\<close>

definition vertex_weight :: "geometry \<Rightarrow> canvas \<Rightarrow> real \<Rightarrow> nat \<Rightarrow> real" where
  "vertex_weight g heightMap minRadiusThreshold i =
     (case uv g of None \<Rightarrow> 0 | Some uvs \<Rightarrow>
      (case normal g of None \<Rightarrow> 0 | Some ns \<Rightarrow>
       if \<not> has2d heightMap \<or> canvas_width heightMap = 0 \<or> canvas_height heightMap = 0 then 0
       else if skip_rule g minRadiusThreshold i then 0
       else heightValue_of (rawHeight_at (canvas_width heightMap) (canvas_height heightMap)
              (bitmap heightMap) (fst (uvs ! i)) (snd (uvs ! i)))))"

section \<open>buildCylinderGeometry\<close>

text \<open>
  The helper of \<open>CylinderObject\<close> in its current revision, \<open>src/unnamed/part_002\<close>
  lines 508 to 585. The earlier revision at lines 294 to 380 has other constants: 4
  steps per unit of height, 400 curve segments, and a plug of height
  \<open>max(0.1, height - 20)\<close>.

  The constructors and methods of three.js that \<open>buildCylinderGeometry\<close> and
  \<open>applyDisplacement\<close> call are not code of this repository. They are the fields of
  a record that every function below takes as its first argument.
  \<open>mergeGeometries\<close> yields null when its operands do not fit together.
\<close>

record shape =
  absarc :: real
  holes :: "(real \<times> real) list list"

record extrudeSettings =
  opt_depth :: real
  opt_bevelEnabled :: bool
  opt_bevelThickness :: real
  opt_bevelSize :: real
  opt_bevelSegments :: nat
  opt_curveSegments :: nat
  opt_steps :: int

record three =
  ExtrudeGeometry :: "shape \<Rightarrow> extrudeSettings \<Rightarrow> geometry"
  center :: "geometry \<Rightarrow> geometry"
  rotateX :: "real \<Rightarrow> geometry \<Rightarrow> geometry"
  BoxGeometry :: "real \<Rightarrow> real \<Rightarrow> real \<Rightarrow> geometry"
  toNonIndexed :: "geometry \<Rightarrow> geometry"
  mergeGeometries :: "geometry list \<Rightarrow> geometry option"
  computeVertexNormals :: "geometry \<Rightarrow> vec3 list"

definition bevelSize :: real where
  "bevelSize = 1"

definition bevelThickness :: real where
  "bevelThickness = 1"

definition halfHole :: real where
  "halfHole = 7.5"

text \<open>\<open>Math.atan2(y, x)\<close>, the angle of the point \<open>(x, y)\<close> in \<open>(-pi, pi]\<close>.\<close>

definition atan2 :: "real \<Rightarrow> real \<Rightarrow> real" where
  "atan2 y x =
     (if 0 < x then arctan (y / x)
      else if x < 0 \<and> 0 \<le> y then arctan (y / x) + pi
      else if x < 0 then arctan (y / x) - pi
      else if 0 < y then pi / 2
      else if y < 0 then - (pi / 2)
      else 0)"

text \<open>
  Lines 555 to 568, the loop that gives the outer shell its cylindrical UVs, over the
  indices still to visit. \<open>uv.setXY\<close> on a geometry without uv attribute is a
  \<open>TypeError\<close>.
\<close>

fun assignShellUVs :: "real \<Rightarrow> real \<Rightarrow> nat list \<Rightarrow> geometry \<Rightarrow> error + geometry" where
  "assignShellUVs radius height [] g = Inr g"
| "assignShellUVs radius height (i # rest) g =
     (let x = getX (position g ! i);
          y = getY (position g ! i);
          z = getZ (position g ! i);
          rThreshold = radius * 0.8;
          r = sqrt (x * x + z * z)
      in if r > rThreshold
         then (let angle = atan2 x z;
                   u = angle / (2 * pi) + 0.5;
                   v = (y + height / 2) / height
               in case uv g of
                    None \<Rightarrow> Inl TypeError
                  | Some uvs \<Rightarrow> assignShellUVs radius height rest (g\<lparr>uv := Some (uvs[i := (u, v)])\<rparr>))
         else assignShellUVs radius height rest g)"

definition plugHeight :: "real \<Rightarrow> real" where
  "plugHeight height = max 0.1 (height - 30)"

text \<open>
  Lines 509 to 547: the circle with its square hole, extruded, centred and turned
  upright.
\<close>

definition extrudeUpright :: "three \<Rightarrow> real \<Rightarrow> real \<Rightarrow> geometry" where
  "extrudeUpright lib radius height =
     (let shp = \<lparr>absarc = radius,
                 holes = [[(- halfHole, - halfHole), (halfHole, - halfHole),
                           (halfHole, halfHole), (- halfHole, halfHole)]]\<rparr>;
          extrudeDepth = height - 2 * bevelThickness;
          stepCount = \<lfloor>height * 2.5\<rfloor>;
          settings = \<lparr>opt_depth = extrudeDepth, opt_bevelEnabled = True,
                      opt_bevelThickness = bevelThickness, opt_bevelSize = bevelSize,
                      opt_bevelSegments = 2, opt_curveSegments = 150, opt_steps = stepCount\<rparr>
      in rotateX lib (pi / 2) (center lib (ExtrudeGeometry lib shp settings)))"

text \<open>
  The result is the error thrown, or what \<open>mergeGeometries\<close> returned: a geometry or
  null.
\<close>

definition buildCylinderGeometry :: "three \<Rightarrow> real \<Rightarrow> real \<Rightarrow> real \<Rightarrow> error + geometry option" where
  "buildCylinderGeometry lib radius height depthOffset =
     (let upright = extrudeUpright lib radius height
      in case assignShellUVs radius height [0..<length (position upright)] upright of
           Inl e \<Rightarrow> Inl e
         | Inr shell \<Rightarrow>
             (let plugGeo = BoxGeometry lib 15 (plugHeight height) 15
              in Inr (mergeGeometries lib [toNonIndexed lib shell, toNonIndexed lib plugGeo])))"

section \<open>generateHeightMap\<close>

text \<open>
  \<open>src/unnamed/part_001\<close> lines 205 to 335. The function first creates the canvas and
  asks it for a 2D context, and returns the canvas as it is when there is none; what
  it draws otherwise is the work of the browser's rasteriser.
\<close>

datatype PatternType = TEXT | IMAGE

record heightMapOptions =
  o_fontSize :: real
  o_fontFamily :: "string option"
  o_letterSpacing :: "real option"
  o_spacingX :: real
  o_spacingY :: real
  o_tilt :: real
  o_imageScale :: real

record image =
  naturalWidth :: nat
  naturalHeight :: nat

text \<open>
  What the browser does for one call of \<open>generateHeightMap\<close>: whether the new canvas
  gives a 2D context, whether the image loads (\<open>None\<close> is \<open>onerror\<close>), and the bitmap
  that the fill and the stamping loops leave on the canvas. The rasteriser is the
  browser's, so the two bitmaps are taken from it as they are.
\<close>

record browser =
  acquire2d :: bool
  loadImage :: "string \<Rightarrow> image option"
  rasterText :: "string \<Rightarrow> nat \<Rightarrow> nat \<Rightarrow> heightMapOptions \<Rightarrow> nat \<Rightarrow> 8 word"
  rasterImage :: "image \<Rightarrow> nat \<Rightarrow> nat \<Rightarrow> heightMapOptions \<Rightarrow> nat \<Rightarrow> 8 word"

text \<open>A new canvas is transparent black: every byte of its bitmap is 0.\<close>

definition createElement_canvas :: "browser \<Rightarrow> nat \<Rightarrow> nat \<Rightarrow> canvas" where
  "createElement_canvas br w h = \<lparr>canvas_width = w, canvas_height = h, bitmap = (\<lambda>_. 0), has2d = acquire2d br\<rparr>"

text \<open>After \<open>fillRect\<close> with \<open>#000000\<close>: red, green and blue 0, alpha 255.\<close>

definition black_bitmap :: "nat \<Rightarrow> 8 word" where
  "black_bitmap i = (if i mod 4 = 3 then 255 else 0)"

definition generateHeightMap ::
  "browser \<Rightarrow> PatternType \<Rightarrow> string \<Rightarrow> nat \<Rightarrow> nat \<Rightarrow> heightMapOptions \<Rightarrow> error + canvas" where
  "generateHeightMap br type content w h options =
     (let cnv = createElement_canvas br w h
      in if \<not> acquire2d br then Inr cnv
         else if type = TEXT then Inr (cnv\<lparr>bitmap := rasterText br content w h options\<rparr>)
         else if content \<noteq> [] then
           (case loadImage br content of
              None \<Rightarrow> Inl ImageLoadError
            | Some img \<Rightarrow>
                if naturalWidth img > 0
                then Inr (cnv\<lparr>bitmap := rasterImage br img w h options\<rparr>)
                else Inr (cnv\<lparr>bitmap := black_bitmap\<rparr>))
         else Inr (cnv\<lparr>bitmap := black_bitmap\<rparr>))"

section \<open>CylinderObject and App\<close>

text \<open>
  The component in its current revision, \<open>src/unnamed/part_002\<close> lines 497 to 696 (the
  line numbers in this section are those of this file), and \<open>handleExport\<close> of
  \<open>src/App.tsx\<close> lines 16 to 24. The configuration is \<open>AppState\<close> of \<open>src/types.ts\<close>
  with the font family and the letter spacing that the component reads from it.
\<close>

record AppState =
  patternType :: PatternType
  text_of :: string
  imageSrc :: "string option"
  cylinderRadius :: real
  cylinderHeight :: real
  fontSize :: real
  fontFamily :: "string option"
  letterSpacing :: "real option"
  imageScale :: real
  spacingX :: real
  spacingY :: real
  tilt :: real
  embossDepth :: real

text \<open>\<open>DEFAULT_STATE\<close> of \<open>types.ts\<close>; it sets no font family and no letter spacing.\<close>

definition DEFAULT_STATE :: AppState where
  "DEFAULT_STATE =
     \<lparr>patternType = TEXT, text_of = ''VINO's LAB'', imageSrc = None, cylinderRadius = 15,
      cylinderHeight = 60, fontSize = 120, fontFamily = None, letterSpacing = None,
      imageScale = 1, spacingX = 20, spacingY = 120, tilt = 0, embossDepth = 0.4\<rparr>"

definition TEXTURE_WIDTH :: nat where
  "TEXTURE_WIDTH = 4096"

definition TEXTURE_HEIGHT :: nat where
  "TEXTURE_HEIGHT = 4096"

text \<open>The call of \<open>generateHeightMap\<close> in \<open>updateGeometry\<close> (lines 613 to 627).\<close>

definition heightMap_for :: "browser \<Rightarrow> AppState \<Rightarrow> error + canvas" where
  "heightMap_for br config =
     generateHeightMap br (patternType config)
       (if patternType config = TEXT then text_of config
        else (case imageSrc config of None \<Rightarrow> [] | Some src \<Rightarrow> src))
       TEXTURE_WIDTH TEXTURE_HEIGHT
       \<lparr>o_fontSize = fontSize config, o_fontFamily = fontFamily config,
        o_letterSpacing = letterSpacing config, o_spacingX = spacingX config,
        o_spacingY = spacingY config, o_tilt = tilt config, o_imageScale = imageScale config\<rparr>"

text \<open>
  One run of the geometry effect: the configuration it closed over, its \<open>isCancelled\<close>
  flag, whether its debounce timer is still set, and where \<open>updateGeometry\<close> stands.
\<close>

datatype phase = Debouncing | Rasterizing | Finished

record cycle =
  config_of :: AppState
  isCancelled :: bool
  timerPending :: bool
  phase_of :: phase

text \<open>
  The state of \<open>App\<close> and \<open>CylinderObject\<close>. A displayed geometry carries the number of
  the effect run that committed it; the number is not in the program and is there to
  state which cycle a mesh comes from.
\<close>

record app_state =
  exportFn :: bool
  isProcessing :: bool
  displayGeoPositive :: "(nat \<times> geometry) option"
  displayGeoNegative :: "(nat \<times> geometry) option"
  cycles :: "cycle list"

definition init_state :: app_state where
  "init_state = \<lparr>exportFn = False, isProcessing = False, displayGeoPositive = None,
                 displayGeoNegative = None, cycles = []\<rparr>"

text \<open>
  The part of \<open>updateGeometry\<close> after the second \<open>if (isCancelled) return\<close> (lines 631
  to 647). It runs without suspension, so the flag it tests is the one of that moment:
  the argument \<open>cancelled\<close>. Each of the two blocks commits its geometry if the build
  returned one. An exception ends the function where it is thrown, with the state as
  it is then: in the inner cases \<open>Inl\<close> is the state at an exception of
  \<open>applyDisplacement\<close> and \<open>Inr\<close> the state to go on with.
\<close>

definition commit_meshes :: "three \<Rightarrow> nat \<Rightarrow> bool \<Rightarrow> AppState \<Rightarrow> canvas \<Rightarrow> app_state \<Rightarrow> app_state" where
  "commit_meshes lib k cancelled config cnv s =
     (case buildCylinderGeometry lib (cylinderRadius config) (cylinderHeight config) 0 of
        Inl e \<Rightarrow> s
      | Inr posGeo \<Rightarrow>
         (case (case posGeo of
                  None \<Rightarrow> Inr s
                | Some g \<Rightarrow>
                    (case applyDisplacement (computeVertexNormals lib) g cnv (embossDepth config)
                            (cylinderRadius config * 0.9) of
                       (g', Some e) \<Rightarrow> Inl s
                     | (g', None) \<Rightarrow>
                         Inr (if \<not> cancelled then s\<lparr>displayGeoPositive := Some (k, g')\<rparr> else s))) of
            Inl s1 \<Rightarrow> s1
          | Inr s1 \<Rightarrow>
             (let outerRadius = cylinderRadius config + embossDepth config
              in case buildCylinderGeometry lib outerRadius (cylinderHeight config) 0 of
                   Inl e \<Rightarrow> s1
                 | Inr negGeo \<Rightarrow>
                    (case (case negGeo of
                             None \<Rightarrow> Inr s1
                           | Some g \<Rightarrow>
                               (case applyDisplacement (computeVertexNormals lib) g cnv
                                       (- embossDepth config) (outerRadius * 0.9) of
                                  (g', Some e) \<Rightarrow> Inl s1
                                | (g', None) \<Rightarrow>
                                    Inr (if \<not> cancelled
                                         then s1\<lparr>displayGeoNegative := Some (k, g')\<rparr> else s1))) of
                       Inl s2 \<Rightarrow> s2
                     | Inr s2 \<Rightarrow> (if \<not> cancelled then s2\<lparr>isProcessing := False\<rparr> else s2)))))"

text \<open>
  \<open>updateGeometry\<close> from the point where \<open>await generateHeightMap\<close> settles: a rejected
  promise ends it, and so does a set \<open>isCancelled\<close>.
\<close>

definition updateGeometry_resume :: "three \<Rightarrow> nat \<Rightarrow> cycle \<Rightarrow> browser \<Rightarrow> app_state \<Rightarrow> app_state" where
  "updateGeometry_resume lib k c br s =
     (case heightMap_for br (config_of c) of
        Inl e \<Rightarrow> s
      | Inr cnv \<Rightarrow> if isCancelled c then s else commit_meshes lib k (isCancelled c) (config_of c) cnv s)"

text \<open>The cleanup of the effect run in force: \<open>isCancelled = true; clearTimeout(debounceTimer)\<close>.\<close>

definition cleanup_current :: "cycle list \<Rightarrow> cycle list" where
  "cleanup_current cs =
     (if cs = [] then []
      else cs[length cs - 1 := (cs ! (length cs - 1))\<lparr>isCancelled := True, timerPending := False\<rparr>])"

definition new_cycle :: "AppState \<Rightarrow> cycle" where
  "new_cycle config =
     \<lparr>config_of = config, isCancelled = False, timerPending = True, phase_of = Debouncing\<rparr>"

text \<open>
  What can happen to the component. \<open>ConfigArrives\<close> is a render with a new
  configuration (the first one mounts the component, and the export effect registers
  the export function): the cleanup of the run in force, then a new run that reports
  processing and sets its timer. \<open>TimerFire k\<close> is the debounce timer of run \<open>k\<close>,
  which starts \<open>updateGeometry\<close> up to its \<open>await\<close>. \<open>RasterSettled k br\<close> is the
  promise of run \<open>k\<close> settling, with what the browser did for it.
\<close>

datatype event = ConfigArrives AppState | TimerFire nat | RasterSettled nat browser

fun step :: "three \<Rightarrow> event \<Rightarrow> app_state \<Rightarrow> app_state" where
  "step lib (ConfigArrives config) s =
     s\<lparr>exportFn := True, isProcessing := True,
       cycles := cleanup_current (cycles s) @ [new_cycle config]\<rparr>"
| "step lib (TimerFire k) s =
     (if k < length (cycles s) \<and> timerPending (cycles s ! k)
      then s\<lparr>cycles := (cycles s)[k := (cycles s ! k)
                \<lparr>timerPending := False,
                 phase_of := (if isCancelled (cycles s ! k) then Finished else Rasterizing)\<rparr>]\<rparr>
      else s)"
| "step lib (RasterSettled k br) s =
     (if k < length (cycles s) \<and> phase_of (cycles s ! k) = Rasterizing
      then updateGeometry_resume lib k (cycles s ! k) br
             (s\<lparr>cycles := (cycles s)[k := (cycles s ! k)\<lparr>phase_of := Finished\<rparr>]\<rparr>)
      else s)"

definition run :: "three \<Rightarrow> event list \<Rightarrow> app_state \<Rightarrow> app_state" where
  "run lib es s = fold (step lib) es s"

text \<open>
  The export function of \<open>CylinderObject\<close> (lines 592 to 601) and \<open>handleExport\<close> of
  \<open>App\<close>. The group that \<open>groupRef\<close> points to is rendered when both display
  geometries are set, and is null otherwise.
\<close>

datatype export_outcome = Exported | Alert string | NoEffect

definition groupRef_current :: "app_state \<Rightarrow> bool" where
  "groupRef_current s = (displayGeoPositive s \<noteq> None \<and> displayGeoNegative s \<noteq> None)"

definition exportFunction :: "app_state \<Rightarrow> export_outcome" where
  "exportFunction s = (if \<not> groupRef_current s then NoEffect else Exported)"

definition handleExport :: "app_state \<Rightarrow> export_outcome" where
  "handleExport s =
     (if exportFn s \<and> \<not> isProcessing s then exportFunction s
      else if isProcessing s then Alert ''Please wait for generation to complete.''
      else Alert ''Geometry not ready yet.'')"

text \<open>
  What holds of the effect runs in every state the component can reach: every run but
  the latest has its \<open>isCancelled\<close> set, the latest has not, and a timer is set only
  while its run is debouncing.
\<close>

definition orchestrator_inv :: "app_state \<Rightarrow> bool" where
  "orchestrator_inv s =
     ((\<forall>k. Suc k < length (cycles s) \<longrightarrow> isCancelled (cycles s ! k)) \<and>
      (\<forall>k. Suc k = length (cycles s) \<longrightarrow> \<not> isCancelled (cycles s ! k)) \<and>
      (\<forall>k < length (cycles s). timerPending (cycles s ! k) \<longrightarrow> phase_of (cycles s ! k) = Debouncing))"

section \<open>The specification's formulas\<close>

text \<open>
  The smoothstep as the specification words it: 0 up to 0.40, 1 from 0.60, and the
  Hermite polynomial of the normalised intensity in between.
\<close>

definition smoothstep_spec :: "real \<Rightarrow> real" where
  "smoothstep_spec intensity =
     (if intensity \<le> 0.40 then 0
      else if 0.60 \<le> intensity then 1
      else (let t = (intensity - 0.40) / 0.20 in t\<^sup>2 * (3 - 2 * t)))"

text \<open>
  The cylindrical UVs as the specification words them:
  \<open>u = atan2(x, z) / (2 pi) + 0.5\<close> and \<open>v = (y + height / 2) / height\<close>.
\<close>

definition cylindrical_uv_spec :: "real \<Rightarrow> vec3 \<Rightarrow> vec2" where
  "cylindrical_uv_spec height p =
     (atan2 (getX p) (getZ p) / (2 * pi) + 0.5, (getY p + height / 2) / height)"

section \<open>Concrete inputs\<close>

text \<open>
  A geometry of two vertices, one near the axis and one on a shell of radius 15, and a
  canvas that is white everywhere.
\<close>

definition two_vertices :: geometry where
  "two_vertices = \<lparr>position = [(1, 0, 0), (0, 5, 15)], normal = Some [(1, 0, 0), (0, 0, 1)],
                    uv = Some [(0.75, 0.5), (0.5, 0.5)], index = None\<rparr>"

definition white_canvas :: canvas where
  "white_canvas = \<lparr>canvas_width = 4096, canvas_height = 4096, bitmap = (\<lambda>_. 255), has2d = True\<rparr>"

definition keep_normals :: "geometry \<Rightarrow> vec3 list" where
  "keep_normals g = (case normal g of None \<Rightarrow> [] | Some ns \<Rightarrow> ns)"

definition keep_uvs :: "geometry \<Rightarrow> vec2 list" where
  "keep_uvs g = (case uv g of None \<Rightarrow> [] | Some uvs \<Rightarrow> uvs)"

text \<open>
  A small instance of the library: the extrusion has one vertex on the outer circle and
  one on the wall of the hole, the box has one corner, centring and turning leave the
  geometry as it is, and merging joins the attribute buffers (and yields null when an
  operand lacks an attribute).
\<close>

definition join_geometries :: "geometry list \<Rightarrow> geometry option" where
  "join_geometries gs =
     (if gs = [] \<or> (\<exists>g \<in> set gs. normal g = None \<or> uv g = None) then None
      else Some \<lparr>position = concat (map position gs), normal = Some (concat (map keep_normals gs)),
                 uv = Some (concat (map keep_uvs gs)), index = None\<rparr>)"

definition tiny_three :: three where
  "tiny_three =
     \<lparr>ExtrudeGeometry = (\<lambda>shp settings.
         \<lparr>position = [(0, 0, absarc shp), (7.5, 0, 0)], normal = Some [(0, 0, 1), (- 1, 0, 0)],
          uv = Some [(0, 0), (0.25, 0.25)], index = None\<rparr>),
      center = (\<lambda>g. g),
      rotateX = (\<lambda>angle g. g),
      BoxGeometry = (\<lambda>w h d.
         \<lparr>position = [(w / 2, h / 2, d / 2)], normal = Some [(0, 1, 0)], uv = Some [(1, 1)],
          index = None\<rparr>),
      toNonIndexed = (\<lambda>g. g),
      mergeGeometries = join_geometries,
      computeVertexNormals = keep_normals\<rparr>"

text \<open>What \<open>buildCylinderGeometry\<close> makes of this library for a radius of at least 9.375.\<close>

definition tiny_solid :: "real \<Rightarrow> real \<Rightarrow> geometry" where
  "tiny_solid radius h =
     \<lparr>position = [(0, 0, radius), (7.5, 0, 0), (7.5, plugHeight h / 2, 7.5)],
      normal = Some [(0, 0, 1), (- 1, 0, 0), (0, 1, 0)],
      uv = Some [(0.5, 0.5), (0.25, 0.25), (1, 1)], index = None\<rparr>"

text \<open>A browser whose canvas gives no 2D context.\<close>

definition no_context_browser :: browser where
  "no_context_browser =
     \<lparr>acquire2d = False, loadImage = (\<lambda>src. None),
      rasterText = (\<lambda>content w h options. black_bitmap),
      rasterImage = (\<lambda>img w h options. black_bitmap)\<rparr>"

text \<open>A browser that draws every pattern as a white canvas.\<close>

definition white_browser :: browser where
  "white_browser =
     \<lparr>acquire2d = True, loadImage = (\<lambda>src. None),
      rasterText = (\<lambda>content w h options i. 255),
      rasterImage = (\<lambda>img w h options i. 255)\<rparr>"

text \<open>
  A run of the component: the default configuration arrives and its timer fires
  (cycle 0 is rasterising); then a configuration with another text arrives (cycle 1),
  the promise of cycle 0 settles late, and the timer of cycle 1 fires.
\<close>

definition trace_A :: "event list" where
  "trace_A = [ConfigArrives DEFAULT_STATE, TimerFire 0]"

definition config_AB :: AppState where
  "config_AB = DEFAULT_STATE\<lparr>text_of := ''AB''\<rparr>"

definition trace_B :: "event list" where
  "trace_B = [RasterSettled 0 white_browser, TimerFire 1]"

section \<open>The transfer function\<close>

lemma heightValue_of_low: "rawHeight \<le> 0.40 \<Longrightarrow> heightValue_of rawHeight = 0"
  by (simp add: heightValue_of_def edgeStart_def)

lemma heightValue_of_high: "0.60 \<le> rawHeight \<Longrightarrow> heightValue_of rawHeight = 1"
  by (simp add: heightValue_of_def edgeStart_def edgeEnd_def Let_def min_def max_def)

lemma heightValue_of_mid:
  assumes "0.40 < rawHeight" and "rawHeight < 0.60"
  shows "heightValue_of rawHeight =
           ((rawHeight - 0.40) / 0.20)\<^sup>2 * (3 - 2 * ((rawHeight - 0.40) / 0.20))"
proof -
  have "0 \<le> (rawHeight - 0.40) / 0.20" "(rawHeight - 0.40) / 0.20 \<le> 1"
    using assms by simp_all
  then show ?thesis
    using assms by (simp add: heightValue_of_def edgeStart_def edgeEnd_def Let_def power2_eq_square)
qed

lemma heightValue_of_range: "0 \<le> heightValue_of rawHeight \<and> heightValue_of rawHeight \<le> 1"
proof (cases "rawHeight > edgeStart")
  case False
  then show ?thesis by (simp add: heightValue_of_def)
next
  case True
  define t where "t = min (max ((rawHeight - edgeStart) / (edgeEnd - edgeStart)) 0) 1"
  have t: "0 \<le> t" "t \<le> 1" by (simp_all add: t_def)
  have hv: "heightValue_of rawHeight = t * t * (3 - 2 * t)"
    using True by (simp add: heightValue_of_def t_def Let_def)
  have lo: "0 \<le> t * t * (3 - 2 * t)" using t by simp
  have "1 - t * t * (3 - 2 * t) = (1 - t) * (1 - t) * (1 + 2 * t)"
    by (simp add: algebra_simps)
  moreover have "0 \<le> (1 - t) * (1 - t) * (1 + 2 * t)" using t by simp
  ultimately have "t * t * (3 - 2 * t) \<le> 1" by linarith
  with lo hv show ?thesis by simp
qed

section \<open>The displacement loop\<close>

lemma displace_vertex_length:
  "length (displace_vertex ns uvs w h data sc thr i pos) = length pos"
  by (simp add: displace_vertex_def Let_def)

lemma displace_vertex_other:
  "j \<noteq> i \<Longrightarrow> displace_vertex ns uvs w h data sc thr i pos ! j = pos ! j"
  by (simp add: displace_vertex_def Let_def)

lemma fold_displace_length:
  "length (fold (displace_vertex ns uvs w h data sc thr) is pos) = length pos"
  by (induction "is" arbitrary: pos) (simp_all add: displace_vertex_length)

lemma fold_displace_untouched:
  "i \<notin> set is \<Longrightarrow> fold (displace_vertex ns uvs w h data sc thr) is pos ! i = pos ! i"
  by (induction "is" arbitrary: pos) (simp_all add: displace_vertex_other)

lemma displace_vertex_cong:
  "pos ! i = pos' ! i \<Longrightarrow> i < length pos \<Longrightarrow> i < length pos' \<Longrightarrow>
   displace_vertex ns uvs w h data sc thr i pos ! i = displace_vertex ns uvs w h data sc thr i pos' ! i"
  by (simp add: displace_vertex_def Let_def)

lemma fold_displace_upt:
  assumes "i < n" and "i < length pos"
  shows "fold (displace_vertex ns uvs w h data sc thr) [0..<n] pos ! i =
         displace_vertex ns uvs w h data sc thr i pos ! i"
proof -
  let ?f = "displace_vertex ns uvs w h data sc thr"
  have split: "[0..<n] = [0..<i] @ i # [Suc i..<n]"
  proof -
    have "[0..<i + (n - i)] = [0..<i] @ [i..<i + (n - i)]"
      by (rule upt_add_eq_append) simp
    then show ?thesis using assms by (simp add: upt_conv_Cons)
  qed
  define before where "before = fold ?f [0..<i] pos"
  have b: "before ! i = pos ! i"
    unfolding before_def by (rule fold_displace_untouched) simp
  have "fold ?f [0..<n] pos ! i = fold ?f [Suc i..<n] (?f i before) ! i"
    by (simp add: split before_def)
  also have "\<dots> = ?f i before ! i"
    by (rule fold_displace_untouched) simp
  also have "\<dots> = ?f i pos ! i"
    using b assms by (intro displace_vertex_cong) (simp_all add: before_def fold_displace_length)
  finally show ?thesis .
qed

lemma rawHeight_at_range: "0 \<le> rawHeight_at w h data u v \<and> rawHeight_at w h data u v \<le> 1"
proof -
  have byte: "0 \<le> real (unat b) / 255 \<and> real (unat b) / 255 \<le> 1" for b :: "8 word"
  proof -
    have "unat b < 256" using unsigned_less [of b, where ?'a = nat] by simp
    then have "real (unat b) \<le> 255" by linarith
    moreover have "0 \<le> real (unat b)" by (rule of_nat_0_le_iff)
    ultimately show ?thesis by (simp add: unsigned_greater_eq)
  qed
  show ?thesis
    unfolding rawHeight_at_def Let_def using byte by simp
qed

lemma addScaledVector_zero: "addScaledVector p n 0 = p"
  by (simp add: addScaledVector_def getX_def getY_def getZ_def)

lemma displace_vertex_nth:
  assumes "i < length pos"
  shows "displace_vertex ns uvs w h data sc thr i pos ! i =
           (if planar_radius (pos ! i) < thr \<or> \<bar>getY (ns ! i)\<bar> > 0.5 \<or>
               snd (uvs ! i) < 0.05 \<or> snd (uvs ! i) > 0.95
            then pos ! i
            else addScaledVector (pos ! i) (ns ! i)
                   (heightValue_of (rawHeight_at w h data (fst (uvs ! i)) (snd (uvs ! i))) * sc))"
proof -
  define hv where "hv = heightValue_of (rawHeight_at w h data (fst (uvs ! i)) (snd (uvs ! i)))"
  have z: "\<not> 0 < hv \<Longrightarrow> hv = 0"
    unfolding hv_def
    using heightValue_of_range [of "rawHeight_at w h data (fst (uvs ! i)) (snd (uvs ! i))"]
    by linarith
  show ?thesis
  proof (cases "0 < hv")
    case True
    then show ?thesis
      using assms unfolding hv_def
      by (simp add: displace_vertex_def Let_def planar_radius_def)
  next
    case False
    with z have "hv = 0" by simp
    then show ?thesis
      using assms unfolding hv_def
      by (simp add: displace_vertex_def Let_def planar_radius_def addScaledVector_zero)
  qed
qed

lemma applyDisplacement_position:
  assumes "i < length (position g)"
  shows "position (fst (applyDisplacement cvn g hm sc thr)) ! i =
           (case normal g of
              None \<Rightarrow> position g ! i
            | Some ns \<Rightarrow> addScaledVector (position g ! i) (ns ! i) (vertex_weight g hm thr i * sc))"
proof (cases "uv g")
  case None
  then show ?thesis
    by (simp add: applyDisplacement_def vertex_weight_def addScaledVector_zero split: option.splits)
next
  case uvs: (Some uvs)
  show ?thesis
  proof (cases "normal g")
    case None
    then show ?thesis by (simp add: applyDisplacement_def uvs)
  next
    case ns: (Some ns)
    show ?thesis
    proof (cases "\<not> has2d hm \<or> canvas_width hm = 0 \<or> canvas_height hm = 0")
      case True
      then show ?thesis
        by (auto simp add: applyDisplacement_def vertex_weight_def uvs ns addScaledVector_zero)
    next
      case False
      then have "position (fst (applyDisplacement cvn g hm sc thr)) ! i =
          displace_vertex ns uvs (canvas_width hm) (canvas_height hm) (bitmap hm) sc thr i (position g) ! i"
        using assms by (simp add: applyDisplacement_def uvs ns Let_def fold_displace_upt)
      then show ?thesis
        using False assms
        by (simp add: displace_vertex_nth vertex_weight_def skip_rule_def uvs ns addScaledVector_zero)
    qed
  qed
qed

lemma vertex_weight_range: "0 \<le> vertex_weight g hm thr i \<and> vertex_weight g hm thr i \<le> 1"
  using heightValue_of_range by (simp add: vertex_weight_def split: option.splits)

lemma vertex_weight_skip: "skip_rule g thr i \<Longrightarrow> vertex_weight g hm thr i = 0"
  by (simp add: vertex_weight_def split: option.splits)

lemma distance3_addScaled:
  "distance3 (addScaledVector p n s) p = \<bar>s\<bar> * vlength n"
proof -
  have "(getX n * s)\<^sup>2 + (getY n * s)\<^sup>2 + (getZ n * s)\<^sup>2 = s\<^sup>2 * ((getX n)\<^sup>2 + (getY n)\<^sup>2 + (getZ n)\<^sup>2)"
    by (simp add: power2_eq_square algebra_simps)
  then show ?thesis
    by (simp add: distance3_def addScaledVector_def vlength_def getX_def getY_def getZ_def
        real_sqrt_mult)
qed

section \<open>The footprint of the plug\<close>

lemma sq_le_of_abs_le: "\<bar>x\<bar> \<le> (a::real) \<Longrightarrow> x * x \<le> a * a"
proof -
  assume h: "\<bar>x\<bar> \<le> a"
  have "\<bar>x\<bar> * \<bar>x\<bar> \<le> a * a" by (rule mult_mono) (use h in simp_all)
  then show ?thesis by (simp add: abs_mult_self_eq)
qed

lemma plug_corner_radius: "7.5 * sqrt 2 = sqrt 112.5"
proof -
  have "sqrt 112.5 = sqrt (7.5\<^sup>2 * 2)" by (simp add: power2_eq_square)
  also have "\<dots> = \<bar>7.5\<bar> * sqrt 2" by (simp only: real_sqrt_mult real_sqrt_abs)
  also have "\<dots> = 7.5 * sqrt 2" by simp
  finally show ?thesis by simp
qed

lemma footprint_radius:
  assumes "\<bar>getX p\<bar> \<le> 7.5" and "\<bar>getZ p\<bar> \<le> 7.5"
  shows "planar_radius p \<le> 7.5 * sqrt 2"
proof -
  have "getX p * getX p \<le> 7.5 * 7.5"
    using assms(1) by (rule sq_le_of_abs_le)
  moreover have "getZ p * getZ p \<le> 7.5 * 7.5"
    using assms(2) by (rule sq_le_of_abs_le)
  ultimately
  have "getX p * getX p + getZ p * getZ p \<le> 112.5" by simp
  then have "planar_radius p \<le> sqrt 112.5"
    unfolding planar_radius_def by (rule real_sqrt_le_mono)
  then show ?thesis by (simp only: plug_corner_radius)
qed

lemma plug_corner_below: "7.5 * sqrt 2 < 13.5"
proof -
  have "sqrt 112.5 < 13.5" by (rule real_less_lsqrt) (simp_all add: power2_eq_square)
  then show ?thesis by (simp only: plug_corner_radius)
qed

section \<open>The UV loop\<close>

lemma assignShellUVs_result:
  assumes "uv g = Some uvs"
  shows "\<exists>uvs'. assignShellUVs radius height is g = Inr (g\<lparr>uv := Some uvs'\<rparr>) \<and>
           length uvs' = length uvs \<and>
           (\<forall>j < length uvs. uvs' ! j =
              (if j \<in> set is \<and> planar_radius (position g ! j) > radius * 0.8
               then cylindrical_uv_spec height (position g ! j) else uvs ! j))"
  using assms
proof (induction "is" arbitrary: g uvs)
  case Nil
  have "g\<lparr>uv := Some uvs\<rparr> = g" using Nil by simp
  then have "assignShellUVs radius height [] g = Inr (g\<lparr>uv := Some uvs\<rparr>) \<and>
           length uvs = length uvs \<and>
           (\<forall>j < length uvs. uvs ! j =
              (if j \<in> set [] \<and> planar_radius (position g ! j) > radius * 0.8
               then cylindrical_uv_spec height (position g ! j) else uvs ! j))"
    by simp
  then show ?case by (rule exI)
next
  case (Cons i rest)
  show ?case
  proof (cases "planar_radius (position g ! i) > radius * 0.8")
    case False
    from Cons.IH [OF Cons.prems] obtain uvs' where
      r: "assignShellUVs radius height rest g = Inr (g\<lparr>uv := Some uvs'\<rparr>)"
      and l: "length uvs' = length uvs"
      and v: "\<forall>j < length uvs. uvs' ! j =
              (if j \<in> set rest \<and> planar_radius (position g ! j) > radius * 0.8
               then cylindrical_uv_spec height (position g ! j) else uvs ! j)"
      by blast
    have "assignShellUVs radius height (i # rest) g = Inr (g\<lparr>uv := Some uvs'\<rparr>)"
      using False r by (simp add: Let_def planar_radius_def)
    moreover have "\<forall>j < length uvs. uvs' ! j =
              (if j \<in> set (i # rest) \<and> planar_radius (position g ! j) > radius * 0.8
               then cylindrical_uv_spec height (position g ! j) else uvs ! j)"
      using v False by auto
    ultimately show ?thesis using l by blast
  next
    case True
    define c where "c = cylindrical_uv_spec height (position g ! i)"
    define g1 where "g1 = g\<lparr>uv := Some (uvs[i := c])\<rparr>"
    have u1: "uv g1 = Some (uvs[i := c])" by (simp add: g1_def)
    have p1: "position g1 = position g" by (simp add: g1_def)
    from Cons.IH [OF u1] obtain uvs' where
      r: "assignShellUVs radius height rest g1 = Inr (g1\<lparr>uv := Some uvs'\<rparr>)"
      and l: "length uvs' = length (uvs[i := c])"
      and v: "\<forall>j < length (uvs[i := c]). uvs' ! j =
              (if j \<in> set rest \<and> planar_radius (position g1 ! j) > radius * 0.8
               then cylindrical_uv_spec height (position g1 ! j) else uvs[i := c] ! j)"
      by blast
    have g1': "g1\<lparr>uv := Some uvs'\<rparr> = g\<lparr>uv := Some uvs'\<rparr>" by (simp add: g1_def)
    have "assignShellUVs radius height (i # rest) g = Inr (g\<lparr>uv := Some uvs'\<rparr>)"
      using True r Cons.prems
      by (simp add: Let_def planar_radius_def g1_def c_def cylindrical_uv_spec_def)
    moreover have "\<forall>j < length uvs. uvs' ! j =
              (if j \<in> set (i # rest) \<and> planar_radius (position g ! j) > radius * 0.8
               then cylindrical_uv_spec height (position g ! j) else uvs ! j)"
    proof (intro allI impI)
      fix j assume j: "j < length uvs"
      show "uvs' ! j =
              (if j \<in> set (i # rest) \<and> planar_radius (position g ! j) > radius * 0.8
               then cylindrical_uv_spec height (position g ! j) else uvs ! j)"
      proof (cases "j = i")
        case True
        then show ?thesis
          using v j \<open>planar_radius (position g ! i) > radius * 0.8\<close>
          by (simp add: p1 c_def)
      next
        case False
        then show ?thesis using v j by (simp add: p1)
      qed
    qed
    ultimately show ?thesis using l by auto
  qed
qed

section \<open>A blank height map, and the commit\<close>

lemma applyDisplacement_length:
  "length (position (fst (applyDisplacement cvn g hm sc thr))) = length (position g)"
  by (simp add: applyDisplacement_def Let_def fold_displace_length split: option.splits)

lemma rawHeight_at_blank: "rawHeight_at w h (\<lambda>_. 0) u v = 0"
  by (simp add: rawHeight_at_def Let_def)

lemma vertex_weight_blank:
  "bitmap hm = (\<lambda>_. 0) \<Longrightarrow> vertex_weight g hm thr i = 0"
  by (simp add: vertex_weight_def rawHeight_at_blank heightValue_of_low split: option.splits)

lemma applyDisplacement_blank:
  assumes "bitmap hm = (\<lambda>_. 0)"
  shows "position (fst (applyDisplacement cvn g hm sc thr)) = position g"
proof (rule nth_equalityI)
  show "length (position (fst (applyDisplacement cvn g hm sc thr))) = length (position g)"
    by (rule applyDisplacement_length)
next
  fix i assume "i < length (position (fst (applyDisplacement cvn g hm sc thr)))"
  then have "i < length (position g)" by (simp add: applyDisplacement_length)
  then show "position (fst (applyDisplacement cvn g hm sc thr)) ! i = position g ! i"
    using assms
    by (simp add: applyDisplacement_position vertex_weight_blank addScaledVector_zero split: option.splits)
qed

lemma applyDisplacement_no_error:
  "0 < canvas_width hm \<Longrightarrow> 0 < canvas_height hm \<Longrightarrow> snd (applyDisplacement cvn g hm sc thr) = None"
  by (simp add: applyDisplacement_def Let_def split: option.splits)

lemma radial_step:
  assumes "0 < R" and "0 \<le> d" and "0 \<le> c" and "planar_radius p = R + d + c"
  shows "planar_radius
           (addScaledVector p (getX p / planar_radius p, 0, getZ p / planar_radius p) (1 * (- d)))
         = R + c"
proof -
  define r where "r = R + d + c"
  have r: "0 < r" using assms by (simp add: r_def)
  define x where "x = getX p"
  define z where "z = getZ p"
  define q where "q = (R + c) / r"
  have pr: "sqrt (x * x + z * z) = r"
    using assms(4) by (simp add: planar_radius_def x_def z_def r_def)
  have pr': "planar_radius p = r" using assms(4) by (simp add: r_def)
  have fx: "x + x / r * (1 * (- d)) = x * q"
    using r by (simp add: q_def r_def field_simps)
  have fz: "z + z / r * (1 * (- d)) = z * q"
    using r by (simp add: q_def r_def field_simps)
  have "planar_radius (addScaledVector p (x / r, 0, z / r) (1 * (- d))) =
        sqrt ((x + x / r * (1 * (- d))) * (x + x / r * (1 * (- d))) +
              (z + z / r * (1 * (- d))) * (z + z / r * (1 * (- d))))"
    by (simp add: planar_radius_def addScaledVector_def getX_def getY_def getZ_def x_def z_def)
  also have "\<dots> = sqrt (x * q * (x * q) + z * q * (z * q))"
    by (simp only: fx fz)
  also have "x * q * (x * q) + z * q * (z * q) = (x * x + z * z) * q\<^sup>2"
    by (simp add: power2_eq_square algebra_simps)
  also have "sqrt ((x * x + z * z) * q\<^sup>2) = r * \<bar>q\<bar>"
    by (simp only: real_sqrt_mult real_sqrt_abs pr)
  also have "\<dots> = R + c" using r assms(1,3) by (simp add: q_def)
  finally show ?thesis by (simp add: x_def z_def pr')
qed

lemma commit_meshes_success:
  assumes "buildCylinderGeometry lib (cylinderRadius config) (cylinderHeight config) 0 = Inr (Some gp)"
    and "buildCylinderGeometry lib (cylinderRadius config + embossDepth config) (cylinderHeight config) 0
           = Inr (Some gn)"
    and "snd (applyDisplacement (computeVertexNormals lib) gp cnv (embossDepth config)
                (cylinderRadius config * 0.9)) = None"
    and "snd (applyDisplacement (computeVertexNormals lib) gn cnv (- embossDepth config)
                ((cylinderRadius config + embossDepth config) * 0.9)) = None"
  shows "commit_meshes lib k False config cnv s =
           s\<lparr>displayGeoPositive :=
                Some (k, fst (applyDisplacement (computeVertexNormals lib) gp cnv (embossDepth config)
                                (cylinderRadius config * 0.9))),
             displayGeoNegative :=
                Some (k, fst (applyDisplacement (computeVertexNormals lib) gn cnv (- embossDepth config)
                                ((cylinderRadius config + embossDepth config) * 0.9))),
             isProcessing := False\<rparr>"
proof -
  obtain gp' where ep: "applyDisplacement (computeVertexNormals lib) gp cnv (embossDepth config)
                (cylinderRadius config * 0.9) = (gp', None)"
    using assms(3) by (metis prod.collapse)
  obtain gn' where en: "applyDisplacement (computeVertexNormals lib) gn cnv (- embossDepth config)
                ((cylinderRadius config + embossDepth config) * 0.9) = (gn', None)"
    using assms(4) by (metis prod.collapse)
  show ?thesis
    by (simp only: commit_meshes_def Let_def assms(1) assms(2) ep en sum.case option.case
        prod.case simp_thms if_True if_False fst_conv)
qed

section \<open>The effect runs\<close>

lemma commit_meshes_frame:
  "cycles (commit_meshes lib k c config cnv s) = cycles s \<and>
   exportFn (commit_meshes lib k c config cnv s) = exportFn s"
  by (auto simp add: commit_meshes_def Let_def split: sum.splits option.splits prod.splits)

lemma commit_meshes_cancelled: "commit_meshes lib k True config cnv s = s"
  by (auto simp add: commit_meshes_def Let_def split: sum.splits option.splits prod.splits)

lemma commit_meshes_slots:
  "(displayGeoPositive (commit_meshes lib k c config cnv s) = displayGeoPositive s \<or>
    (\<exists>g. displayGeoPositive (commit_meshes lib k c config cnv s) = Some (k, g))) \<and>
   (displayGeoNegative (commit_meshes lib k c config cnv s) = displayGeoNegative s \<or>
    (\<exists>g. displayGeoNegative (commit_meshes lib k c config cnv s) = Some (k, g)))"
  by (auto simp add: commit_meshes_def Let_def split: sum.splits option.splits prod.splits)

lemma commit_meshes_processing:
  assumes "\<forall>r h. buildCylinderGeometry lib r h 0 \<noteq> Inr None"
  shows "isProcessing (commit_meshes lib k c config cnv s) = isProcessing s \<or>
         (displayGeoPositive (commit_meshes lib k c config cnv s) \<noteq> None \<and>
          displayGeoNegative (commit_meshes lib k c config cnv s) \<noteq> None)"
  using assms
  by (auto simp add: commit_meshes_def Let_def split: sum.splits option.splits prod.splits)

lemma commit_meshes_keeps_set:
  "(displayGeoPositive s \<noteq> None \<longrightarrow> displayGeoPositive (commit_meshes lib k c config cnv s) \<noteq> None) \<and>
   (displayGeoNegative s \<noteq> None \<longrightarrow> displayGeoNegative (commit_meshes lib k c config cnv s) \<noteq> None)"
  by (auto simp add: commit_meshes_def Let_def split: sum.splits option.splits prod.splits)

lemma resume_frame:
  "cycles (updateGeometry_resume lib k c br s) = cycles s \<and>
   exportFn (updateGeometry_resume lib k c br s) = exportFn s"
  by (simp add: updateGeometry_resume_def commit_meshes_frame split: sum.splits)

lemma resume_cancelled: "isCancelled c \<Longrightarrow> updateGeometry_resume lib k c br s = s"
  by (simp add: updateGeometry_resume_def split: sum.splits)

lemma resume_slots:
  "(displayGeoPositive (updateGeometry_resume lib k c br s) = displayGeoPositive s \<or>
    (\<not> isCancelled c \<and> (\<exists>g. displayGeoPositive (updateGeometry_resume lib k c br s) = Some (k, g)))) \<and>
   (displayGeoNegative (updateGeometry_resume lib k c br s) = displayGeoNegative s \<or>
    (\<not> isCancelled c \<and> (\<exists>g. displayGeoNegative (updateGeometry_resume lib k c br s) = Some (k, g))))"
proof (cases "heightMap_for br (config_of c)")
  case (Inl err)
  then show ?thesis by (simp add: updateGeometry_resume_def)
next
  case (Inr cnv)
  show ?thesis
  proof (cases "isCancelled c")
    case True
    then show ?thesis by (simp add: resume_cancelled)
  next
    case False
    then have "updateGeometry_resume lib k c br s = commit_meshes lib k False (config_of c) cnv s"
      by (simp add: updateGeometry_resume_def Inr)
    then show ?thesis
      using commit_meshes_slots [of lib k False "config_of c" cnv s] False by simp
  qed
qed

lemma cycles_step:
  "cycles (step lib e s) =
     (case e of
        ConfigArrives config \<Rightarrow> cleanup_current (cycles s) @ [new_cycle config]
      | TimerFire k \<Rightarrow>
          (if k < length (cycles s) \<and> timerPending (cycles s ! k)
           then (cycles s)[k := (cycles s ! k)
                  \<lparr>timerPending := False,
                   phase_of := (if isCancelled (cycles s ! k) then Finished else Rasterizing)\<rparr>]
           else cycles s)
      | RasterSettled k br \<Rightarrow>
          (if k < length (cycles s) \<and> phase_of (cycles s ! k) = Rasterizing
           then (cycles s)[k := (cycles s ! k)\<lparr>phase_of := Finished\<rparr>]
           else cycles s))"
  by (cases e) (simp_all add: resume_frame)

lemma length_cleanup: "length (cleanup_current cs) = length cs"
  by (simp add: cleanup_current_def)

lemma nth_cleanup:
  "k < length cs \<Longrightarrow>
   cleanup_current cs ! k =
     (if k = length cs - 1 then (cs ! k)\<lparr>isCancelled := True, timerPending := False\<rparr> else cs ! k)"
  by (auto simp add: cleanup_current_def)

lemma length_step:
  "length (cycles (step lib e s)) =
     (case e of ConfigArrives config \<Rightarrow> Suc (length (cycles s)) | _ \<Rightarrow> length (cycles s))"
  by (simp add: cycles_step length_cleanup split: event.splits)

lemma length_step_mono: "length (cycles s) \<le> length (cycles (step lib e s))"
  by (simp add: length_step split: event.splits)

lemma length_run_mono: "length (cycles s) \<le> length (cycles (run lib es s))"
proof (induction es arbitrary: s)
  case Nil
  then show ?case by (simp add: run_def)
next
  case (Cons e es)
  have "length (cycles s) \<le> length (cycles (step lib e s))" by (rule length_step_mono)
  also have "\<dots> \<le> length (cycles (run lib es (step lib e s)))" by (rule Cons.IH)
  finally show ?case by (simp add: run_def)
qed

lemma step_cancel_persist:
  assumes "k < length (cycles s)" and "isCancelled (cycles s ! k)"
  shows "isCancelled (cycles (step lib e s) ! k)"
  using assms
  by (auto simp add: cycles_step nth_append length_cleanup nth_cleanup nth_list_update split: event.splits)

lemma step_config_persist:
  assumes "k < length (cycles s)"
  shows "config_of (cycles (step lib e s) ! k) = config_of (cycles s ! k)"
  using assms
  by (auto simp add: cycles_step nth_append length_cleanup nth_cleanup nth_list_update split: event.splits)

lemma step_RasterSettled:
  "k < length (cycles s) \<Longrightarrow> phase_of (cycles s ! k) = Rasterizing \<Longrightarrow>
   step lib (RasterSettled k br) s =
     updateGeometry_resume lib k (cycles s ! k) br
       (s\<lparr>cycles := (cycles s)[k := (cycles s ! k)\<lparr>phase_of := Finished\<rparr>]\<rparr>)"
  by simp

lemma step_RasterSettled_idle:
  "\<not> (k < length (cycles s) \<and> phase_of (cycles s ! k) = Rasterizing) \<Longrightarrow>
   step lib (RasterSettled k br) s = s"
  by auto

lemma step_slots:
  "(displayGeoPositive (step lib e s) = displayGeoPositive s \<or>
    (\<exists>k br g. e = RasterSettled k br \<and> k < length (cycles s) \<and> \<not> isCancelled (cycles s ! k) \<and>
       phase_of (cycles s ! k) = Rasterizing \<and> displayGeoPositive (step lib e s) = Some (k, g))) \<and>
   (displayGeoNegative (step lib e s) = displayGeoNegative s \<or>
    (\<exists>k br g. e = RasterSettled k br \<and> k < length (cycles s) \<and> \<not> isCancelled (cycles s ! k) \<and>
       phase_of (cycles s ! k) = Rasterizing \<and> displayGeoNegative (step lib e s) = Some (k, g)))"
proof (cases e)
  case (ConfigArrives config)
  then show ?thesis by simp
next
  case (TimerFire j)
  then show ?thesis by simp
next
  case (RasterSettled j br)
  show ?thesis
  proof (cases "j < length (cycles s) \<and> phase_of (cycles s ! j) = Rasterizing")
    case False
    then show ?thesis using RasterSettled by auto
  next
    case True
    let ?s' = "s\<lparr>cycles := (cycles s)[j := (cycles s ! j)\<lparr>phase_of := Finished\<rparr>]\<rparr>"
    have st: "step lib e s = updateGeometry_resume lib j (cycles s ! j) br ?s'"
      using True RasterSettled by simp
    from resume_slots [of lib j "cycles s ! j" br ?s']
    show ?thesis unfolding st using True RasterSettled by auto
  qed
qed

declare step.simps [simp del]

lemma run_cancel_persist:
  assumes "k < length (cycles s)" and "isCancelled (cycles s ! k)"
  shows "isCancelled (cycles (run lib es s) ! k)"
  using assms
proof (induction es arbitrary: s)
  case Nil
  then show ?case by (simp add: run_def)
next
  case (Cons e es)
  have "k < length (cycles (step lib e s))"
    using Cons.prems(1) length_step_mono [of s lib e] by linarith
  moreover have "isCancelled (cycles (step lib e s) ! k)"
    using Cons.prems by (rule step_cancel_persist)
  ultimately have "isCancelled (cycles (run lib es (step lib e s)) ! k)" by (rule Cons.IH)
  then show ?case by (simp add: run_def)
qed

lemma run_no_commit:
  assumes "k < length (cycles s)" and "isCancelled (cycles s ! k)"
    and "map_option fst (displayGeoPositive s) \<noteq> Some k"
    and "map_option fst (displayGeoNegative s) \<noteq> Some k"
  shows "map_option fst (displayGeoPositive (run lib es s)) \<noteq> Some k \<and>
         map_option fst (displayGeoNegative (run lib es s)) \<noteq> Some k"
  using assms
proof (induction es arbitrary: s)
  case Nil
  then show ?case by (simp add: run_def)
next
  case (Cons e es)
  have l: "k < length (cycles (step lib e s))"
    using Cons.prems(1) length_step_mono [of s lib e] by linarith
  have c: "isCancelled (cycles (step lib e s) ! k)"
    using Cons.prems(1,2) by (rule step_cancel_persist)
  have p: "map_option fst (displayGeoPositive (step lib e s)) \<noteq> Some k"
    using step_slots [of lib e s] Cons.prems(2,3) by auto
  have n: "map_option fst (displayGeoNegative (step lib e s)) \<noteq> Some k"
    using step_slots [of lib e s] Cons.prems(2,4) by auto
  from Cons.IH [OF l c p n] show ?case by (simp add: run_def)
qed

lemma inv_init: "orchestrator_inv init_state"
  by (simp add: orchestrator_inv_def init_state_def)

lemma inv_step:
  assumes "orchestrator_inv s"
  shows "orchestrator_inv (step lib e s)"
proof (cases e)
  case (ConfigArrives config)
  have c: "cycles (step lib e s) = cleanup_current (cycles s) @ [new_cycle config]"
    by (simp add: cycles_step ConfigArrives)
  show ?thesis
    using assms unfolding orchestrator_inv_def c
    by (auto simp add: nth_append length_cleanup nth_cleanup new_cycle_def less_Suc_eq)
next
  case (TimerFire j)
  show ?thesis
    using assms unfolding orchestrator_inv_def
    by (auto simp add: cycles_step TimerFire nth_list_update)
next
  case (RasterSettled j br)
  show ?thesis
    using assms unfolding orchestrator_inv_def
    by (auto simp add: cycles_step RasterSettled nth_list_update)
qed

lemma run_Cons: "run lib (e # es) s = run lib es (step lib e s)"
  by (simp add: run_def)

lemma run_Nil: "run lib [] s = s"
  by (simp add: run_def)

lemma run_append: "run lib (es @ es') s = run lib es' (run lib es s)"
  by (simp add: run_def)

lemma inv_run: "orchestrator_inv s \<Longrightarrow> orchestrator_inv (run lib es s)"
  by (induction es arbitrary: s) (simp_all add: run_Nil run_Cons inv_step)

lemma step_TimerFire_fields:
  "isProcessing (step lib (TimerFire j) s) = isProcessing s \<and>
   exportFn (step lib (TimerFire j) s) = exportFn s \<and>
   displayGeoPositive (step lib (TimerFire j) s) = displayGeoPositive s \<and>
   displayGeoNegative (step lib (TimerFire j) s) = displayGeoNegative s"
  by (simp add: step.simps)

lemma resume_export_inv:
  assumes "\<forall>r h. buildCylinderGeometry lib r h 0 \<noteq> Inr None"
    and "isProcessing s \<or> \<not> exportFn s \<or> groupRef_current s"
  shows "isProcessing (updateGeometry_resume lib k c br s) \<or>
         \<not> exportFn (updateGeometry_resume lib k c br s) \<or>
         groupRef_current (updateGeometry_resume lib k c br s)"
proof (cases "heightMap_for br (config_of c)")
  case (Inl err)
  then show ?thesis using assms(2) by (simp add: updateGeometry_resume_def)
next
  case (Inr cnv)
  show ?thesis
  proof (cases "isCancelled c")
    case True
    then show ?thesis using assms(2) by (simp add: resume_cancelled)
  next
    case False
    then have r: "updateGeometry_resume lib k c br s = commit_meshes lib k False (config_of c) cnv s"
      by (simp add: updateGeometry_resume_def Inr)
    show ?thesis
      unfolding r groupRef_current_def
      using assms(2) commit_meshes_processing [OF assms(1), of k False "config_of c" cnv s]
        commit_meshes_keeps_set [of s lib k False "config_of c" cnv]
        commit_meshes_frame [of lib k False "config_of c" cnv s]
      by (auto simp add: groupRef_current_def)
  qed
qed

lemma export_inv_step:
  assumes "\<forall>r h. buildCylinderGeometry lib r h 0 \<noteq> Inr None"
    and "isProcessing s \<or> \<not> exportFn s \<or> groupRef_current s"
  shows "isProcessing (step lib e s) \<or> \<not> exportFn (step lib e s) \<or> groupRef_current (step lib e s)"
proof (cases e)
  case (ConfigArrives config)
  then show ?thesis by (simp add: step.simps)
next
  case (TimerFire j)
  then show ?thesis using assms(2) by (auto simp add: step.simps groupRef_current_def)
next
  case (RasterSettled j br)
  show ?thesis
  proof (cases "j < length (cycles s) \<and> phase_of (cycles s ! j) = Rasterizing")
    case False
    then show ?thesis using assms(2) RasterSettled by (simp add: step_RasterSettled_idle)
  next
    case True
    let ?s' = "s\<lparr>cycles := (cycles s)[j := (cycles s ! j)\<lparr>phase_of := Finished\<rparr>]\<rparr>"
    have "isProcessing ?s' \<or> \<not> exportFn ?s' \<or> groupRef_current ?s'"
      using assms(2) by (simp add: groupRef_current_def)
    from resume_export_inv [OF assms(1) this, of j "cycles s ! j" br]
    show ?thesis using True RasterSettled by (simp add: step_RasterSettled)
  qed
qed

lemma export_inv_run:
  assumes "\<forall>r h. buildCylinderGeometry lib r h 0 \<noteq> Inr None"
    and "isProcessing s \<or> \<not> exportFn s \<or> groupRef_current s"
  shows "isProcessing (run lib es s) \<or> \<not> exportFn (run lib es s) \<or> groupRef_current (run lib es s)"
  using assms(2)
proof (induction es arbitrary: s)
  case Nil
  then show ?case by (simp add: run_Nil)
next
  case (Cons e es)
  from export_inv_step [OF assms(1) Cons.prems, of e]
  show ?case unfolding run_Cons by (rule Cons.IH)
qed

lemma run_config_persist:
  assumes "k < length (cycles s)"
  shows "config_of (cycles (run lib es s) ! k) = config_of (cycles s ! k)"
  using assms
proof (induction es arbitrary: s)
  case Nil
  then show ?case by (simp add: run_Nil)
next
  case (Cons e es)
  have "k < length (cycles (step lib e s))"
    using Cons.prems length_step_mono [of s lib e] by linarith
  then have "config_of (cycles (run lib es (step lib e s)) ! k) = config_of (cycles (step lib e s) ! k)"
    by (rule Cons.IH)
  then show ?case using Cons.prems by (simp add: run_Cons step_config_persist)
qed

lemma heightMap_for_size:
  "heightMap_for br config = Inr cnv \<Longrightarrow> canvas_width cnv = 4096 \<and> canvas_height cnv = 4096"
  by (auto simp add: heightMap_for_def generateHeightMap_def createElement_canvas_def Let_def
      TEXTURE_WIDTH_def TEXTURE_HEIGHT_def split: if_splits option.splits)

lemma settle_commits:
  assumes "k < length (cycles s)" and "phase_of (cycles s ! k) = Rasterizing"
    and "\<not> isCancelled (cycles s ! k)"
    and "heightMap_for br (config_of (cycles s ! k)) = Inr cnv"
    and "buildCylinderGeometry lib (cylinderRadius (config_of (cycles s ! k)))
           (cylinderHeight (config_of (cycles s ! k))) 0 = Inr (Some gp)"
    and "buildCylinderGeometry lib
           (cylinderRadius (config_of (cycles s ! k)) + embossDepth (config_of (cycles s ! k)))
           (cylinderHeight (config_of (cycles s ! k))) 0 = Inr (Some gn)"
  shows "step lib (RasterSettled k br) s =
           s\<lparr>cycles := (cycles s)[k := (cycles s ! k)\<lparr>phase_of := Finished\<rparr>],
             displayGeoPositive :=
               Some (k, fst (applyDisplacement (computeVertexNormals lib) gp cnv
                               (embossDepth (config_of (cycles s ! k)))
                               (cylinderRadius (config_of (cycles s ! k)) * 0.9))),
             displayGeoNegative :=
               Some (k, fst (applyDisplacement (computeVertexNormals lib) gn cnv
                               (- embossDepth (config_of (cycles s ! k)))
                               ((cylinderRadius (config_of (cycles s ! k)) +
                                 embossDepth (config_of (cycles s ! k))) * 0.9))),
             isProcessing := False\<rparr>"
proof -
  let ?s' = "s\<lparr>cycles := (cycles s)[k := (cycles s ! k)\<lparr>phase_of := Finished\<rparr>]\<rparr>"
  have sz: "0 < canvas_width cnv" "0 < canvas_height cnv"
    using heightMap_for_size [OF assms(4)] by simp_all
  have "step lib (RasterSettled k br) s = updateGeometry_resume lib k (cycles s ! k) br ?s'"
    using assms(1,2) by (rule step_RasterSettled)
  also have "\<dots> = commit_meshes lib k False (config_of (cycles s ! k)) cnv ?s'"
    using assms(3,4) by (simp add: updateGeometry_resume_def)
  also have "\<dots> = ?s'\<lparr>displayGeoPositive :=
               Some (k, fst (applyDisplacement (computeVertexNormals lib) gp cnv
                               (embossDepth (config_of (cycles s ! k)))
                               (cylinderRadius (config_of (cycles s ! k)) * 0.9))),
             displayGeoNegative :=
               Some (k, fst (applyDisplacement (computeVertexNormals lib) gn cnv
                               (- embossDepth (config_of (cycles s ! k)))
                               ((cylinderRadius (config_of (cycles s ! k)) +
                                 embossDepth (config_of (cycles s ! k))) * 0.9))),
             isProcessing := False\<rparr>"
    using assms(5,6) by (rule commit_meshes_success) (simp_all add: applyDisplacement_no_error sz)
  finally show ?thesis by simp
qed

lemma final_stays:
  assumes "orchestrator_inv s" and "length (cycles s) = Suc b"
    and "phase_of (cycles s ! b) = Finished"
    and "length (cycles (run lib es s)) = Suc b"
  shows "displayGeoPositive (run lib es s) = displayGeoPositive s \<and>
         displayGeoNegative (run lib es s) = displayGeoNegative s"
  using assms
proof (induction es arbitrary: s)
  case Nil
  then show ?case by (simp add: run_Nil)
next
  case (Cons e es)
  let ?t = "step lib e s"
  have len: "length (cycles ?t) = Suc b"
  proof -
    have "length (cycles ?t) \<le> length (cycles (run lib es ?t))" by (rule length_run_mono)
    then have "length (cycles ?t) \<le> Suc b" using Cons.prems(4) by (simp add: run_Cons)
    moreover have "Suc b \<le> length (cycles ?t)"
      using length_step_mono [of s lib e] Cons.prems(2) by simp
    ultimately show ?thesis by simp
  qed
  have inv: "orchestrator_inv ?t" using Cons.prems(1) by (rule inv_step)
  have notpending: "\<not> timerPending (cycles s ! b)"
    using Cons.prems(1,2,3) by (auto simp add: orchestrator_inv_def)
  have older: "j < b \<Longrightarrow> isCancelled (cycles s ! j)" for j
    using Cons.prems(1,2) by (simp add: orchestrator_inv_def)
  have keep: "phase_of (cycles ?t ! b) = Finished \<and>
              displayGeoPositive ?t = displayGeoPositive s \<and>
              displayGeoNegative ?t = displayGeoNegative s"
  proof (cases e)
    case (ConfigArrives config)
    then have "length (cycles ?t) = Suc (Suc b)"
      using Cons.prems(2) by (simp add: length_step)
    with len show ?thesis by simp
  next
    case (TimerFire j)
    then show ?thesis
      using Cons.prems(2,3) notpending
      by (auto simp add: step.simps nth_list_update)
  next
    case (RasterSettled j br)
    show ?thesis
    proof (cases "j < length (cycles s) \<and> phase_of (cycles s ! j) = Rasterizing")
      case False
      then show ?thesis
        using RasterSettled Cons.prems(3) by (simp add: step_RasterSettled_idle)
    next
      case True
      then have jb: "j < b" using Cons.prems(2,3) by (cases "j = b") auto
      then have "isCancelled (cycles s ! j)" by (rule older)
      then have "?t = s\<lparr>cycles := (cycles s)[j := (cycles s ! j)\<lparr>phase_of := Finished\<rparr>]\<rparr>"
        using True RasterSettled by (simp add: step_RasterSettled resume_cancelled)
      then show ?thesis using jb Cons.prems(3) by simp
    qed
  qed
  from Cons.IH [OF inv len] keep Cons.prems(4)
  show ?case by (simp add: run_Cons)
qed

section \<open>Facts about the concrete inputs\<close>

lemma two_vertices_aligned: "attributes_aligned two_vertices"
  by (simp add: attributes_aligned_def two_vertices_def)

lemma sqrt_225: "sqrt 225 = 15"
  by (rule real_sqrt_unique) simp_all

lemma white_sample: "rawHeight_at 4096 4096 (\<lambda>_. 255) (1 / 2) (1 / 2) = 1"
  by (simp add: rawHeight_at_def js_rem_def Let_def)

lemma shell_vertex_weight: "vertex_weight two_vertices white_canvas 13.5 1 = 1"
  by (simp add: vertex_weight_def skip_rule_def two_vertices_def white_canvas_def planar_radius_def
      getX_def getY_def getZ_def sqrt_225 white_sample heightValue_of_high)

lemma plug_corner: "BoxGeometry tiny_three 15 (plugHeight 60) 15 =
    \<lparr>position = [(7.5, 15, 7.5)], normal = Some [(0, 1, 0)], uv = Some [(1, 1)], index = None\<rparr>"
  by (simp add: tiny_three_def plugHeight_def)

lemma tiny_upright: "extrudeUpright tiny_three radius h =
  \<lparr>position = [(0, 0, radius), (7.5, 0, 0)], normal = Some [(0, 0, 1), (- 1, 0, 0)],
   uv = Some [(0, 0), (0.25, 0.25)], index = None\<rparr>"
  by (simp add: extrudeUpright_def tiny_three_def Let_def)

lemma sqrt_hole: "sqrt (225 / 4) = 15 / 2"
  by (rule real_sqrt_unique) (simp_all add: power2_eq_square)

lemma tiny_shell_15: "assignShellUVs 15 20 [0..<2] (extrudeUpright tiny_three 15 20) =
  Inr \<lparr>position = [(0, 0, 15), (7.5, 0, 0)], normal = Some [(0, 0, 1), (- 1, 0, 0)],
       uv = Some [(0.5, 0.5), (0.25, 0.25)], index = None\<rparr>"
proof -
  have u: "[0..<2] = [0, Suc 0]" by (simp add: upt_conv_Cons numeral_2_eq_2)
  show ?thesis
    by (simp add: tiny_upright u Let_def getX_def getY_def getZ_def sqrt_225 sqrt_hole atan2_def)
qed

lemma tiny_build:
  assumes "9.375 \<le> radius" and "0 < h"
  shows "buildCylinderGeometry tiny_three radius h 0 = Inr (Some (tiny_solid radius h))"
proof -
  have u: "[0..<2] = [0, Suc 0]" by (simp add: upt_conv_Cons numeral_2_eq_2)
  have r: "sqrt (radius * radius) = radius" using assms(1) by simp
  have a: "assignShellUVs radius h [0..<2] (extrudeUpright tiny_three radius h) =
     Inr \<lparr>position = [(0, 0, radius), (7.5, 0, 0)], normal = Some [(0, 0, 1), (- 1, 0, 0)],
          uv = Some [(0.5, 0.5), (0.25, 0.25)], index = None\<rparr>"
    using assms
    by (simp add: tiny_upright u Let_def getX_def getY_def getZ_def r sqrt_hole atan2_def)
  have l: "length (position (extrudeUpright tiny_three radius h)) = 2" by (simp add: tiny_upright)
  show ?thesis
    unfolding buildCylinderGeometry_def Let_def l a
    by (simp add: tiny_three_def join_geometries_def keep_normals_def keep_uvs_def tiny_solid_def)
qed

lemma planar_radius_axis: "planar_radius (0, y, r) = \<bar>r\<bar>"
  by (simp add: planar_radius_def getX_def getZ_def)

lemma white_weight:
  assumes "9.375 \<le> radius"
  shows "vertex_weight (tiny_solid radius h) white_canvas (radius * 0.9) 0 = 1"
proof -
  have "\<not> skip_rule (tiny_solid radius h) (radius * 0.9) 0"
    using assms by (simp add: skip_rule_def tiny_solid_def planar_radius_axis getY_def)
  then show ?thesis
    by (simp add: vertex_weight_def tiny_solid_def white_canvas_def white_sample heightValue_of_high)
qed

lemma tiny_fields:
  "mergeGeometries tiny_three = join_geometries"
  "toNonIndexed tiny_three g = g"
  "BoxGeometry tiny_three w h d =
     \<lparr>position = [(w / 2, h / 2, d / 2)], normal = Some [(0, 1, 0)], uv = Some [(1, 1)],
      index = None\<rparr>"
  "computeVertexNormals tiny_three = keep_normals"
  by (simp_all add: tiny_three_def)

lemma tiny_never_null: "\<forall>r h. buildCylinderGeometry tiny_three r h 0 \<noteq> Inr None"
proof (intro allI)
  fix r h
  let ?g = "extrudeUpright tiny_three r h"
  have u: "uv ?g = Some [(0, 0), (0.25, 0.25)]" by (simp add: tiny_upright)
  from assignShellUVs_result [OF u, of r h "[0..<length (position ?g)]"]
  obtain uvs' where a: "assignShellUVs r h [0..<length (position ?g)] ?g = Inr (?g\<lparr>uv := Some uvs'\<rparr>)"
    by blast
  have n: "normal ?g = Some [(0, 0, 1), (- 1, 0, 0)]" by (simp add: tiny_upright)
  show "buildCylinderGeometry tiny_three r h 0 \<noteq> Inr None"
    unfolding buildCylinderGeometry_def Let_def a
    by (simp add: tiny_fields join_geometries_def n)
qed

lemma state_A:
  "run tiny_three trace_A init_state =
     \<lparr>exportFn = True, isProcessing = True, displayGeoPositive = None, displayGeoNegative = None,
      cycles = [\<lparr>config_of = DEFAULT_STATE, isCancelled = False, timerPending = False,
                 phase_of = Rasterizing\<rparr>]\<rparr>"
  by (simp add: run_def trace_A_def step.simps init_state_def cleanup_current_def new_cycle_def)

lemma state_A_superseded:
  "step tiny_three (ConfigArrives config_AB) (run tiny_three trace_A init_state) =
     \<lparr>exportFn = True, isProcessing = True, displayGeoPositive = None, displayGeoNegative = None,
      cycles = [\<lparr>config_of = DEFAULT_STATE, isCancelled = True, timerPending = False,
                 phase_of = Rasterizing\<rparr>,
                \<lparr>config_of = config_AB, isCancelled = False, timerPending = True,
                 phase_of = Debouncing\<rparr>]\<rparr>"
  by (simp add: state_A step.simps cleanup_current_def new_cycle_def)

lemma state_B:
  "run tiny_three trace_B (step tiny_three (ConfigArrives config_AB) (run tiny_three trace_A init_state)) =
     \<lparr>exportFn = True, isProcessing = True, displayGeoPositive = None, displayGeoNegative = None,
      cycles = [\<lparr>config_of = DEFAULT_STATE, isCancelled = True, timerPending = False,
                 phase_of = Finished\<rparr>,
                \<lparr>config_of = config_AB, isCancelled = False, timerPending = False,
                 phase_of = Rasterizing\<rparr>]\<rparr>"
proof -
  have "run tiny_three trace_B (step tiny_three (ConfigArrives config_AB) (run tiny_three trace_A init_state)) =
        step tiny_three (TimerFire 1) (step tiny_three (RasterSettled 0 white_browser)
          (step tiny_three (ConfigArrives config_AB) (run tiny_three trace_A init_state)))"
    by (simp only: trace_B_def run_Cons run_Nil)
  also have "\<dots> =
     \<lparr>exportFn = True, isProcessing = True, displayGeoPositive = None, displayGeoNegative = None,
      cycles = [\<lparr>config_of = DEFAULT_STATE, isCancelled = True, timerPending = False,
                 phase_of = Finished\<rparr>,
                \<lparr>config_of = config_AB, isCancelled = False, timerPending = False,
                 phase_of = Rasterizing\<rparr>]\<rparr>"
    unfolding state_A_superseded by (simp add: step.simps resume_cancelled)
  finally show ?thesis .
qed

lemma white_heightMap: "heightMap_for white_browser config_AB = Inr white_canvas"
  by (simp add: heightMap_for_def generateHeightMap_def createElement_canvas_def white_browser_def
      white_canvas_def config_AB_def DEFAULT_STATE_def TEXTURE_WIDTH_def TEXTURE_HEIGHT_def)

lemma config_AB_fields:
  "cylinderRadius config_AB = 15" "cylinderHeight config_AB = 60" "embossDepth config_AB = 0.4"
  by (simp_all add: config_AB_def DEFAULT_STATE_def)

section \<open>The claims\<close>

text \<open>
  C1. For a cylinder radius \<open>R > 0\<close> and an emboss depth \<open>d \<ge> 0\<close>, \<open>updateGeometry\<close>
  builds the positive mesh with radius \<open>R\<close> and displaces it with scale \<open>+d\<close>, and
  builds the negative mesh with radius \<open>R + d\<close> and displaces it with scale \<open>-d\<close>. A
  shell vertex of the negative mesh (planar radius \<open>R + d\<close>, normal the outward radial
  unit vector) that is displaced with weight 1 ends at planar radius \<open>R\<close>, the radius
  the positive mesh is built with: the two meshes nest without a gap. The same holds
  when the extrusion sets the wall of both meshes out by a common \<open>c \<ge> 0\<close>, as a bevel
  does: from \<open>R + d + c\<close> the vertex ends at \<open>R + c\<close>.
\<close>

theorem zero_gap_nesting:
  assumes "0 < cylinderRadius config" and "0 \<le> embossDepth config" and "0 \<le> c"
    and "buildCylinderGeometry lib (cylinderRadius config) (cylinderHeight config) 0 = Inr (Some gp)"
    and "buildCylinderGeometry lib (cylinderRadius config + embossDepth config) (cylinderHeight config) 0
           = Inr (Some gn)"
    and "0 < canvas_width cnv" and "0 < canvas_height cnv"
    and "i < length (position gn)" and "normal gn = Some ns"
    and "planar_radius (position gn ! i) = cylinderRadius config + embossDepth config + c"
    and "ns ! i = (getX (position gn ! i) / planar_radius (position gn ! i), 0,
                   getZ (position gn ! i) / planar_radius (position gn ! i))"
    and "vertex_weight gn cnv ((cylinderRadius config + embossDepth config) * 0.9) i = 1"
  shows "commit_meshes lib k False config cnv s =
           s\<lparr>displayGeoPositive :=
                Some (k, fst (applyDisplacement (computeVertexNormals lib) gp cnv (embossDepth config)
                                (cylinderRadius config * 0.9))),
             displayGeoNegative :=
                Some (k, fst (applyDisplacement (computeVertexNormals lib) gn cnv (- embossDepth config)
                                ((cylinderRadius config + embossDepth config) * 0.9))),
             isProcessing := False\<rparr> \<and>
         planar_radius
           (position (fst (applyDisplacement (computeVertexNormals lib) gn cnv (- embossDepth config)
                             ((cylinderRadius config + embossDepth config) * 0.9))) ! i)
           = cylinderRadius config + c"
proof -
  have commit: "commit_meshes lib k False config cnv s =
           s\<lparr>displayGeoPositive :=
                Some (k, fst (applyDisplacement (computeVertexNormals lib) gp cnv (embossDepth config)
                                (cylinderRadius config * 0.9))),
             displayGeoNegative :=
                Some (k, fst (applyDisplacement (computeVertexNormals lib) gn cnv (- embossDepth config)
                                ((cylinderRadius config + embossDepth config) * 0.9))),
             isProcessing := False\<rparr>"
    using assms(4,5) by (rule commit_meshes_success) (simp_all add: applyDisplacement_no_error assms(6,7))
  have "position (fst (applyDisplacement (computeVertexNormals lib) gn cnv (- embossDepth config)
                             ((cylinderRadius config + embossDepth config) * 0.9))) ! i =
        addScaledVector (position gn ! i)
          (getX (position gn ! i) / planar_radius (position gn ! i), 0,
           getZ (position gn ! i) / planar_radius (position gn ! i))
          (1 * (- embossDepth config))"
    using assms(8,9,11,12) by (simp add: applyDisplacement_position)
  then have "planar_radius
           (position (fst (applyDisplacement (computeVertexNormals lib) gn cnv (- embossDepth config)
                             ((cylinderRadius config + embossDepth config) * 0.9))) ! i)
           = cylinderRadius config + c"
    using radial_step [OF assms(1,2,3,10)] by simp
  with commit show ?thesis by simp
qed

theorem zero_gap_nesting_witness:
  "0 < cylinderRadius DEFAULT_STATE \<and> 0 \<le> embossDepth DEFAULT_STATE \<and>
   buildCylinderGeometry tiny_three (cylinderRadius DEFAULT_STATE) (cylinderHeight DEFAULT_STATE) 0
     = Inr (Some (tiny_solid 15 60)) \<and>
   buildCylinderGeometry tiny_three (cylinderRadius DEFAULT_STATE + embossDepth DEFAULT_STATE)
       (cylinderHeight DEFAULT_STATE) 0
     = Inr (Some (tiny_solid 15.4 60)) \<and>
   0 < canvas_width white_canvas \<and> 0 < canvas_height white_canvas \<and>
   0 < length (position (tiny_solid 15.4 60)) \<and>
   normal (tiny_solid 15.4 60) = Some [(0, 0, 1), (- 1, 0, 0), (0, 1, 0)] \<and>
   planar_radius (position (tiny_solid 15.4 60) ! 0) = 15.4 \<and>
   [(0, 0, 1), (- 1, 0, 0), (0, 1, 0)] ! 0 =
     (getX (position (tiny_solid 15.4 60) ! 0) / 15.4, 0 :: real,
      getZ (position (tiny_solid 15.4 60) ! 0) / 15.4) \<and>
   vertex_weight (tiny_solid 15.4 60) white_canvas (15.4 * 0.9) 0 = 1 \<and>
   planar_radius
     (position (fst (applyDisplacement (computeVertexNormals tiny_three) (tiny_solid 15.4 60)
                       white_canvas (- embossDepth DEFAULT_STATE)
                       ((cylinderRadius DEFAULT_STATE + embossDepth DEFAULT_STATE) * 0.9))) ! 0)
     = 15"
proof -
  have R: "cylinderRadius DEFAULT_STATE = 15" and d: "embossDepth DEFAULT_STATE = 0.4"
    and H: "cylinderHeight DEFAULT_STATE = 60"
    by (simp_all add: DEFAULT_STATE_def)
  have Rd: "cylinderRadius DEFAULT_STATE + embossDepth DEFAULT_STATE = 15.4" by (simp add: R d)
  have h1: "0 < cylinderRadius DEFAULT_STATE" by (simp add: R)
  have h2: "0 \<le> embossDepth DEFAULT_STATE" by (simp add: d)
  have h3: "buildCylinderGeometry tiny_three (cylinderRadius DEFAULT_STATE)
              (cylinderHeight DEFAULT_STATE) 0 = Inr (Some (tiny_solid 15 60))"
    unfolding R H by (rule tiny_build) simp_all
  have h4: "buildCylinderGeometry tiny_three (cylinderRadius DEFAULT_STATE + embossDepth DEFAULT_STATE)
              (cylinderHeight DEFAULT_STATE) 0 = Inr (Some (tiny_solid 15.4 60))"
    unfolding Rd H by (rule tiny_build) simp_all
  have h5: "0 < canvas_width white_canvas" and h6: "0 < canvas_height white_canvas"
    by (simp_all add: white_canvas_def)
  have h7: "0 < length (position (tiny_solid 15.4 60))" by (simp add: tiny_solid_def)
  have h8: "normal (tiny_solid 15.4 60) = Some [(0, 0, 1), (- 1, 0, 0), (0, 1, 0)]"
    by (simp add: tiny_solid_def)
  have p: "planar_radius (position (tiny_solid 15.4 60) ! 0) = 15.4"
    by (simp add: tiny_solid_def planar_radius_axis)
  have h0: "(0::real) \<le> 0" by simp
  have h9: "planar_radius (position (tiny_solid 15.4 60) ! 0) =
              cylinderRadius DEFAULT_STATE + embossDepth DEFAULT_STATE + 0"
    unfolding Rd using p by simp
  have q: "[(0, 0, 1), (- 1, 0, 0), (0, 1, 0)] ! 0 =
     (getX (position (tiny_solid 15.4 60) ! 0) / 15.4, 0 :: real,
      getZ (position (tiny_solid 15.4 60) ! 0) / 15.4)"
    by (simp add: tiny_solid_def getX_def getZ_def)
  have h10: "[(0, 0, 1), (- 1, 0, 0), (0, 1, 0)] ! 0 =
       (getX (position (tiny_solid 15.4 60) ! 0) / planar_radius (position (tiny_solid 15.4 60) ! 0),
        0 :: real,
        getZ (position (tiny_solid 15.4 60) ! 0) / planar_radius (position (tiny_solid 15.4 60) ! 0))"
    unfolding p by (rule q)
  have w: "vertex_weight (tiny_solid 15.4 60) white_canvas (15.4 * 0.9) 0 = 1"
    by (rule white_weight) simp
  have h11: "vertex_weight (tiny_solid 15.4 60) white_canvas
               ((cylinderRadius DEFAULT_STATE + embossDepth DEFAULT_STATE) * 0.9) 0 = 1"
    unfolding Rd by (rule w)
  have "planar_radius
     (position (fst (applyDisplacement (computeVertexNormals tiny_three) (tiny_solid 15.4 60)
                       white_canvas (- embossDepth DEFAULT_STATE)
                       ((cylinderRadius DEFAULT_STATE + embossDepth DEFAULT_STATE) * 0.9))) ! 0)
     = cylinderRadius DEFAULT_STATE + 0"
    using zero_gap_nesting [OF h1 h2 h0 h3 h4 h5 h6 h7 h8 h9 h10 h11] by blast
  then have "planar_radius
     (position (fst (applyDisplacement (computeVertexNormals tiny_three) (tiny_solid 15.4 60)
                       white_canvas (- embossDepth DEFAULT_STATE)
                       ((cylinderRadius DEFAULT_STATE + embossDepth DEFAULT_STATE) * 0.9))) ! 0)
     = 15"
    by (simp only: R add_0_right)
  with h1 h2 h3 h4 h5 h6 h7 h8 p q w show ?thesis by blast
qed

text \<open>
  C2. In \<open>applyDisplacement\<close>, a vertex keeps exactly its input position whenever a
  skip rule fires for it: its planar radius \<open>sqrt (x\<^sup>2 + z\<^sup>2)\<close> is below
  \<open>minRadiusThreshold\<close>, or the absolute value of the y component of its normal is
  above 0.5, or its UV v coordinate is below 0.05 or above 0.95. This holds for every
  geometry, height map, displacement scale and threshold.
\<close>

theorem skip_rule_keeps_position:
  assumes "attributes_aligned g" and "i < length (position g)" and "skip_rule g thr i"
  shows "position (fst (applyDisplacement cvn g hm sc thr)) ! i = position g ! i"
  using assms(2,3)
  by (simp add: applyDisplacement_position vertex_weight_skip addScaledVector_zero split: option.splits)

theorem skip_rule_keeps_position_witness:
  "attributes_aligned two_vertices \<and> 0 < length (position two_vertices) \<and>
   skip_rule two_vertices 13.5 0 \<and>
   position (fst (applyDisplacement keep_normals two_vertices white_canvas 0.4 13.5)) ! 0 = (1, 0, 0)"
proof -
  have a: "attributes_aligned two_vertices" by (rule two_vertices_aligned)
  have l: "0 < length (position two_vertices)" by (simp add: two_vertices_def)
  have k: "skip_rule two_vertices 13.5 0"
    by (simp add: skip_rule_def two_vertices_def planar_radius_def getX_def getZ_def)
  have "position two_vertices ! 0 = (1, 0, 0)" by (simp add: two_vertices_def)
  with skip_rule_keeps_position [OF a l k, of keep_normals white_canvas "0.4"] a l k
  show ?thesis by simp
qed

text \<open>
  C3. The \<open>heightValue\<close> that \<open>applyDisplacement\<close> computes from a sampled intensity
  is the Hermite smoothstep over the band from 0.40 to 0.60: 0 for an intensity of at
  most 0.40, 1 for one of at least 0.60, and \<open>t\<^sup>2 * (3 - 2 * t)\<close> with
  \<open>t = (intensity - 0.40) / 0.20\<close> in between. Every sampled intensity lies in the
  interval from 0 to 1.
\<close>

theorem heightValue_is_smoothstep:
  "heightValue_of intensity = smoothstep_spec intensity \<and>
   0 \<le> rawHeight_at w h data u v \<and> rawHeight_at w h data u v \<le> 1"
proof -
  have "heightValue_of intensity = smoothstep_spec intensity"
  proof -
    consider "intensity \<le> 0.40" | "0.60 \<le> intensity" | "0.40 < intensity" "intensity < 0.60"
      by linarith
    then show ?thesis
    proof cases
      case 1
      then show ?thesis by (simp add: heightValue_of_low smoothstep_spec_def)
    next
      case 2
      then show ?thesis by (simp add: heightValue_of_high smoothstep_spec_def)
    next
      case 3
      then show ?thesis by (simp add: heightValue_of_mid smoothstep_spec_def Let_def)
    qed
  qed
  then show ?thesis using rawHeight_at_range by simp
qed

theorem heightValue_is_smoothstep_witness:
  "heightValue_of 0.5 = 0.5 \<and> heightValue_of 0.3 = 0 \<and> heightValue_of 0.7 = 1"
  using heightValue_is_smoothstep [of "0.5"] heightValue_is_smoothstep [of "0.3"]
    heightValue_is_smoothstep [of "0.7"]
  by (simp add: smoothstep_spec_def Let_def power2_eq_square)

text \<open>
  C4. For a vertex whose stored normal has unit length, the distance between its
  position after \<open>applyDisplacement\<close> and its position before equals its weight times
  the absolute value of the displacement scale, and the weight lies between 0 and 1.
  So no vertex moves farther than the absolute value of the scale, which is the emboss
  depth for both meshes.
\<close>

theorem displacement_distance:
  assumes "attributes_aligned g" and "i < length (position g)"
    and "normal g = Some ns" and "vlength (ns ! i) = 1"
  shows "distance3 (position (fst (applyDisplacement cvn g hm sc thr)) ! i) (position g ! i) =
           vertex_weight g hm thr i * \<bar>sc\<bar> \<and>
         0 \<le> vertex_weight g hm thr i \<and> vertex_weight g hm thr i \<le> 1 \<and>
         distance3 (position (fst (applyDisplacement cvn g hm sc thr)) ! i) (position g ! i) \<le> \<bar>sc\<bar> \<and>
         (0 \<le> d \<and> (sc = d \<or> sc = - d) \<longrightarrow>
          distance3 (position (fst (applyDisplacement cvn g hm sc thr)) ! i) (position g ! i) \<le> d)"
proof -
  let ?d = "distance3 (position (fst (applyDisplacement cvn g hm sc thr)) ! i) (position g ! i)"
  let ?w = "vertex_weight g hm thr i"
  have w: "0 \<le> ?w" "?w \<le> 1" using vertex_weight_range by blast+
  have d: "?d = ?w * \<bar>sc\<bar>"
    using assms(2,3,4) w by (simp add: applyDisplacement_position distance3_addScaled abs_mult)
  have le: "?d \<le> \<bar>sc\<bar>"
    using d w mult_left_le_one_le [of "\<bar>sc\<bar>" ?w] by (simp add: mult.commute)
  show ?thesis using d w le by auto
qed

theorem displacement_distance_witness:
  "attributes_aligned two_vertices \<and> 1 < length (position two_vertices) \<and>
   normal two_vertices = Some [(1, 0, 0), (0, 0, 1)] \<and> vlength ([(1, 0, 0), (0, 0, 1)] ! 1) = 1 \<and>
   vertex_weight two_vertices white_canvas 13.5 1 = 1 \<and>
   distance3 (position (fst (applyDisplacement keep_normals two_vertices white_canvas (- 0.4) 13.5)) ! 1)
     (position two_vertices ! 1) = 0.4"
proof -
  have a: "attributes_aligned two_vertices" by (rule two_vertices_aligned)
  have l: "1 < length (position two_vertices)" by (simp add: two_vertices_def)
  have n: "normal two_vertices = Some [(1, 0, 0), (0, 0, 1)]"
    by (simp add: two_vertices_def)
  have u: "vlength ([(1, 0, 0), (0, 0, 1)] ! 1) = 1"
    by (simp add: vlength_def getX_def getY_def getZ_def)
  have w: "vertex_weight two_vertices white_canvas 13.5 1 = 1" by (rule shell_vertex_weight)
  have "distance3 (position (fst (applyDisplacement keep_normals two_vertices white_canvas (- 0.4) 13.5)) ! 1)
          (position two_vertices ! 1) = vertex_weight two_vertices white_canvas 13.5 1 * \<bar>- 0.4\<bar>"
    using displacement_distance [OF a l n u, of keep_normals white_canvas "- 0.4" "13.5" "0.4"] by blast
  then have "distance3 (position (fst (applyDisplacement keep_normals two_vertices white_canvas (- 0.4) 13.5)) ! 1)
          (position two_vertices ! 1) = 0.4"
    unfolding w by simp
  with a l n u w show ?thesis by blast
qed

text \<open>
  C5. In \<open>buildCylinderGeometry\<close>, after the extruded solid is centred and turned
  upright, every vertex whose planar radius is above 0.8 times the radius gets the
  cylindrical UVs \<open>u = atan2(x, z) / (2 pi) + 0.5\<close> and
  \<open>v = (y + height / 2) / height\<close>, and every other vertex keeps the UVs it had. The
  loop does not fail, and its result is what is merged with the plug.
\<close>

theorem shell_uv_assignment:
  assumes "0 < height" and "uv (extrudeUpright lib radius height) = Some uvs"
    and "length uvs = length (position (extrudeUpright lib radius height))"
  shows "\<exists>uvs'.
     assignShellUVs radius height [0..<length (position (extrudeUpright lib radius height))]
         (extrudeUpright lib radius height) = Inr ((extrudeUpright lib radius height)\<lparr>uv := Some uvs'\<rparr>) \<and>
     buildCylinderGeometry lib radius height depthOffset =
       Inr (mergeGeometries lib
              [toNonIndexed lib ((extrudeUpright lib radius height)\<lparr>uv := Some uvs'\<rparr>),
               toNonIndexed lib (BoxGeometry lib 15 (plugHeight height) 15)]) \<and>
     length uvs' = length uvs \<and>
     (\<forall>i < length (position (extrudeUpright lib radius height)).
        uvs' ! i =
          (let p = position (extrudeUpright lib radius height) ! i
           in if sqrt (getX p * getX p + getZ p * getZ p) > 0.8 * radius
              then (atan2 (getX p) (getZ p) / (2 * pi) + 0.5, (getY p + height / 2) / height)
              else uvs ! i))"
proof -
  let ?g = "extrudeUpright lib radius height"
  from assignShellUVs_result [OF assms(2), of radius height "[0..<length (position ?g)]"]
  obtain uvs' where
    r: "assignShellUVs radius height [0..<length (position ?g)] ?g = Inr (?g\<lparr>uv := Some uvs'\<rparr>)"
    and l: "length uvs' = length uvs"
    and v: "\<forall>j < length uvs. uvs' ! j =
              (if j \<in> set [0..<length (position ?g)] \<and> planar_radius (position ?g ! j) > radius * 0.8
               then cylindrical_uv_spec height (position ?g ! j) else uvs ! j)"
    by blast
  have b: "buildCylinderGeometry lib radius height depthOffset =
       Inr (mergeGeometries lib
              [toNonIndexed lib (?g\<lparr>uv := Some uvs'\<rparr>),
               toNonIndexed lib (BoxGeometry lib 15 (plugHeight height) 15)])"
    using r by (simp add: buildCylinderGeometry_def Let_def)
  have "\<forall>i < length (position ?g). uvs' ! i =
          (let p = position ?g ! i
           in if sqrt (getX p * getX p + getZ p * getZ p) > 0.8 * radius
              then (atan2 (getX p) (getZ p) / (2 * pi) + 0.5, (getY p + height / 2) / height)
              else uvs ! i)"
    using v assms(3) by (simp add: Let_def planar_radius_def cylindrical_uv_spec_def mult.commute)
  with r b l show ?thesis by blast
qed

theorem shell_uv_assignment_witness:
  "(0::real) < 20 \<and>
   uv (extrudeUpright tiny_three 15 20) = Some [(0, 0), (0.25, 0.25)] \<and>
   length [(0, 0), (0.25, 0.25) :: vec2] = length (position (extrudeUpright tiny_three 15 20)) \<and>
   (\<exists>uvs'. assignShellUVs 15 20 [0..<length (position (extrudeUpright tiny_three 15 20))]
        (extrudeUpright tiny_three 15 20) = Inr ((extrudeUpright tiny_three 15 20)\<lparr>uv := Some uvs'\<rparr>) \<and>
      uvs' = [(0.5, 0.5), (0.25, 0.25)])"
proof -
  let ?g = "extrudeUpright tiny_three 15 20"
  have h: "(0::real) < 20" by simp
  have u: "uv ?g = Some [(0, 0), (0.25, 0.25)]" by (simp add: tiny_upright)
  have l: "length [(0, 0), (0.25, 0.25) :: vec2] = length (position ?g)" by (simp add: tiny_upright)
  from shell_uv_assignment [OF h u l, of 0] obtain uvs' where
    r: "assignShellUVs 15 20 [0..<length (position ?g)] ?g = Inr (?g\<lparr>uv := Some uvs'\<rparr>)"
    and n: "length uvs' = length [(0, 0), (0.25, 0.25) :: vec2]"
    and v: "\<forall>i < length (position ?g). uvs' ! i =
          (let p = position ?g ! i
           in if sqrt (getX p * getX p + getZ p * getZ p) > 0.8 * 15
              then (atan2 (getX p) (getZ p) / (2 * pi) + 0.5, (getY p + 20 / 2) / 20)
              else [(0, 0), (0.25, 0.25)] ! i)"
    by blast
  have v0: "uvs' ! 0 = (0.5, 0.5)"
    using v [rule_format, of 0]
    by (simp add: tiny_upright Let_def getX_def getY_def getZ_def sqrt_225 atan2_def)
  have v1: "uvs' ! 1 = (0.25, 0.25)"
    using v [rule_format, of 1]
    by (simp add: tiny_upright Let_def getX_def getY_def getZ_def sqrt_hole)
  have "uvs' = [(0.5, 0.5), (0.25, 0.25)]"
    using n v0 v1 by (auto simp add: list_eq_iff_nth_eq less_Suc_eq numeral_2_eq_2)
  with h u l r show ?thesis by blast
qed

text \<open>
  C6. With a cylinder radius of 15 the thresholds passed to \<open>applyDisplacement\<close> are
  13.5 for the positive mesh and 0.9 times (15 + emboss depth) for the negative one.
  Every vertex over the 15 by 15 cross-section of the plug has a planar radius of at
  most 7.5 times the square root of 2, which is below both thresholds, so the radius
  rule skips it and both calls leave it where it was.
\<close>

theorem plug_vertices_untouched:
  assumes "attributes_aligned g" and "i < length (position g)"
    and "\<bar>getX (position g ! i)\<bar> \<le> 7.5" and "\<bar>getZ (position g ! i)\<bar> \<le> 7.5"
    and "cylinderRadius config = 15" and "0 \<le> embossDepth config"
  shows "planar_radius (position g ! i) \<le> 7.5 * sqrt 2 \<and>
         7.5 * sqrt 2 < cylinderRadius config * 0.9 \<and>
         cylinderRadius config * 0.9 = 13.5 \<and>
         position (fst (applyDisplacement cvn g hm (embossDepth config)
                          (cylinderRadius config * 0.9))) ! i = position g ! i \<and>
         position (fst (applyDisplacement cvn g hm (- embossDepth config)
                          ((cylinderRadius config + embossDepth config) * 0.9))) ! i = position g ! i"
proof -
  have r: "planar_radius (position g ! i) \<le> 7.5 * sqrt 2"
    using assms(3,4) by (rule footprint_radius)
  have t: "cylinderRadius config * 0.9 = 13.5" using assms(5) by simp
  have lt: "planar_radius (position g ! i) < cylinderRadius config * 0.9"
    using r plug_corner_below t by linarith
  have lt': "planar_radius (position g ! i) < (cylinderRadius config + embossDepth config) * 0.9"
    using lt assms(6) by (simp add: algebra_simps)
  have s1: "skip_rule g (cylinderRadius config * 0.9) i"
    using lt by (simp add: skip_rule_def)
  have s2: "skip_rule g ((cylinderRadius config + embossDepth config) * 0.9) i"
    using lt' by (simp add: skip_rule_def)
  have p1: "position (fst (applyDisplacement cvn g hm (embossDepth config)
                          (cylinderRadius config * 0.9))) ! i = position g ! i"
    using assms(2) s1
    by (simp add: applyDisplacement_position vertex_weight_skip addScaledVector_zero split: option.splits)
  have p2: "position (fst (applyDisplacement cvn g hm (- embossDepth config)
                          ((cylinderRadius config + embossDepth config) * 0.9))) ! i = position g ! i"
    using assms(2) s2
    by (simp add: applyDisplacement_position vertex_weight_skip addScaledVector_zero split: option.splits)
  show ?thesis using r plug_corner_below t p1 p2 by simp
qed

theorem plug_vertices_untouched_witness:
  "attributes_aligned (BoxGeometry tiny_three 15 (plugHeight 60) 15) \<and>
   0 < length (position (BoxGeometry tiny_three 15 (plugHeight 60) 15)) \<and>
   \<bar>getX (position (BoxGeometry tiny_three 15 (plugHeight 60) 15) ! 0)\<bar> \<le> 7.5 \<and>
   \<bar>getZ (position (BoxGeometry tiny_three 15 (plugHeight 60) 15) ! 0)\<bar> \<le> 7.5 \<and>
   cylinderRadius DEFAULT_STATE = 15 \<and> 0 \<le> embossDepth DEFAULT_STATE \<and>
   position (fst (applyDisplacement keep_normals (BoxGeometry tiny_three 15 (plugHeight 60) 15)
       white_canvas (embossDepth DEFAULT_STATE) (cylinderRadius DEFAULT_STATE * 0.9))) ! 0 = (7.5, 15, 7.5) \<and>
   position (fst (applyDisplacement keep_normals (BoxGeometry tiny_three 15 (plugHeight 60) 15)
       white_canvas (- embossDepth DEFAULT_STATE)
       ((cylinderRadius DEFAULT_STATE + embossDepth DEFAULT_STATE) * 0.9))) ! 0 = (7.5, 15, 7.5)"
proof -
  let ?b = "BoxGeometry tiny_three 15 (plugHeight 60) 15"
  have a: "attributes_aligned ?b" by (simp add: plug_corner attributes_aligned_def)
  have l: "0 < length (position ?b)" by (simp add: plug_corner)
  have x: "\<bar>getX (position ?b ! 0)\<bar> \<le> 7.5" by (simp add: plug_corner getX_def)
  have z: "\<bar>getZ (position ?b ! 0)\<bar> \<le> 7.5" by (simp add: plug_corner getZ_def)
  have r: "cylinderRadius DEFAULT_STATE = 15" by (simp add: DEFAULT_STATE_def)
  have d: "0 \<le> embossDepth DEFAULT_STATE" by (simp add: DEFAULT_STATE_def)
  have p: "position ?b ! 0 = (7.5, 15, 7.5)" by (simp add: plug_corner)
  from plug_vertices_untouched [OF a l x z r d, of keep_normals white_canvas]
  show ?thesis using a l x z r d unfolding p by blast
qed

text \<open>
  C7. When a new configuration arrives while cycle A is in force and has not
  committed, the cleanup sets A's \<open>isCancelled\<close>, and from then on A commits neither
  mesh, whatever happens next. When the promise of the new cycle B settles with a height
  map and both of its builds yield a geometry, both display geometries are B's outputs,
  and they stay so for as long as B is the latest cycle: the displayed pair is never
  made of a mesh of A and a mesh of B.
\<close>

theorem superseded_cycle_never_commits:
  fixes lib :: three and es0 :: "event list" and configB :: AppState
  defines "s \<equiv> run lib es0 init_state"
  defines "a \<equiv> length (cycles s) - 1"
  defines "b \<equiv> length (cycles s)"
  defines "s1 \<equiv> step lib (ConfigArrives configB) s"
  assumes "cycles s \<noteq> []"
    and "map_option fst (displayGeoPositive s) \<noteq> Some a"
    and "map_option fst (displayGeoNegative s) \<noteq> Some a"
  shows "isCancelled (cycles s1 ! a) \<and>
         (\<forall>es. map_option fst (displayGeoPositive (run lib es s1)) \<noteq> Some a \<and>
               map_option fst (displayGeoNegative (run lib es s1)) \<noteq> Some a) \<and>
         (\<forall>es br cnv gp gn.
            length (cycles (run lib es s1)) = Suc b \<and>
            phase_of (cycles (run lib es s1) ! b) = Rasterizing \<and>
            heightMap_for br configB = Inr cnv \<and>
            buildCylinderGeometry lib (cylinderRadius configB) (cylinderHeight configB) 0 = Inr (Some gp) \<and>
            buildCylinderGeometry lib (cylinderRadius configB + embossDepth configB)
              (cylinderHeight configB) 0 = Inr (Some gn) \<longrightarrow>
            displayGeoPositive (step lib (RasterSettled b br) (run lib es s1)) =
              Some (b, fst (applyDisplacement (computeVertexNormals lib) gp cnv (embossDepth configB)
                              (cylinderRadius configB * 0.9))) \<and>
            displayGeoNegative (step lib (RasterSettled b br) (run lib es s1)) =
              Some (b, fst (applyDisplacement (computeVertexNormals lib) gn cnv (- embossDepth configB)
                              ((cylinderRadius configB + embossDepth configB) * 0.9))) \<and>
            \<not> isProcessing (step lib (RasterSettled b br) (run lib es s1)) \<and>
            (\<forall>es2. length (cycles (run lib es2 (step lib (RasterSettled b br) (run lib es s1)))) = Suc b \<longrightarrow>
               displayGeoPositive (run lib es2 (step lib (RasterSettled b br) (run lib es s1))) =
                 displayGeoPositive (step lib (RasterSettled b br) (run lib es s1)) \<and>
               displayGeoNegative (run lib es2 (step lib (RasterSettled b br) (run lib es s1))) =
                 displayGeoNegative (step lib (RasterSettled b br) (run lib es s1))))"
proof -
  have inv_s: "orchestrator_inv s" unfolding s_def using inv_init by (rule inv_run)
  have inv1: "orchestrator_inv s1" unfolding s1_def using inv_s by (rule inv_step)
  have c1: "cycles s1 = cleanup_current (cycles s) @ [new_cycle configB]"
    by (simp add: s1_def cycles_step)
  have la: "a < length (cycles s)" using assms(5) by (simp add: a_def)
  have len1: "length (cycles s1) = Suc b" by (simp add: c1 length_cleanup b_def)
  have a1: "a < length (cycles s1)" using la by (simp add: len1 b_def)
  have cancelled: "isCancelled (cycles s1 ! a)"
    using la by (simp add: c1 nth_append length_cleanup nth_cleanup a_def)
  have slots1: "displayGeoPositive s1 = displayGeoPositive s" "displayGeoNegative s1 = displayGeoNegative s"
    by (simp_all add: s1_def step.simps)
  have p1: "map_option fst (displayGeoPositive s1) \<noteq> Some a"
    using assms(6) by (simp add: slots1)
  have n1: "map_option fst (displayGeoNegative s1) \<noteq> Some a"
    using assms(7) by (simp add: slots1)
  have never: "map_option fst (displayGeoPositive (run lib es s1)) \<noteq> Some a \<and>
               map_option fst (displayGeoNegative (run lib es s1)) \<noteq> Some a" for es
    using a1 cancelled p1 n1 by (rule run_no_commit)
  have cfgB: "config_of (cycles s1 ! b) = configB"
    by (simp add: c1 nth_append length_cleanup b_def new_cycle_def)
  have settle: "displayGeoPositive (step lib (RasterSettled b br) (run lib es s1)) =
              Some (b, fst (applyDisplacement (computeVertexNormals lib) gp cnv (embossDepth configB)
                              (cylinderRadius configB * 0.9))) \<and>
            displayGeoNegative (step lib (RasterSettled b br) (run lib es s1)) =
              Some (b, fst (applyDisplacement (computeVertexNormals lib) gn cnv (- embossDepth configB)
                              ((cylinderRadius configB + embossDepth configB) * 0.9))) \<and>
            \<not> isProcessing (step lib (RasterSettled b br) (run lib es s1)) \<and>
            (\<forall>es2. length (cycles (run lib es2 (step lib (RasterSettled b br) (run lib es s1)))) = Suc b \<longrightarrow>
               displayGeoPositive (run lib es2 (step lib (RasterSettled b br) (run lib es s1))) =
                 displayGeoPositive (step lib (RasterSettled b br) (run lib es s1)) \<and>
               displayGeoNegative (run lib es2 (step lib (RasterSettled b br) (run lib es s1))) =
                 displayGeoNegative (step lib (RasterSettled b br) (run lib es s1)))"
    if len2: "length (cycles (run lib es s1)) = Suc b"
      and ph: "phase_of (cycles (run lib es s1) ! b) = Rasterizing"
      and hm: "heightMap_for br configB = Inr cnv"
      and bp: "buildCylinderGeometry lib (cylinderRadius configB) (cylinderHeight configB) 0 = Inr (Some gp)"
      and bn: "buildCylinderGeometry lib (cylinderRadius configB + embossDepth configB)
              (cylinderHeight configB) 0 = Inr (Some gn)"
    for es br cnv gp gn
  proof -
    let ?s2 = "run lib es s1"
    let ?s3 = "step lib (RasterSettled b br) ?s2"
    have inv2: "orchestrator_inv ?s2" using inv1 by (rule inv_run)
    have b2: "b < length (cycles ?s2)" by (simp add: len2)
    have cfg2: "config_of (cycles ?s2 ! b) = configB"
      using run_config_persist [of b s1 lib es] cfgB by (simp add: len1)
    have nc: "\<not> isCancelled (cycles ?s2 ! b)"
      using inv2 len2 by (simp add: orchestrator_inv_def)
    have s3: "?s3 = ?s2\<lparr>cycles := (cycles ?s2)[b := (cycles ?s2 ! b)\<lparr>phase_of := Finished\<rparr>],
             displayGeoPositive :=
               Some (b, fst (applyDisplacement (computeVertexNormals lib) gp cnv
                               (embossDepth configB) (cylinderRadius configB * 0.9))),
             displayGeoNegative :=
               Some (b, fst (applyDisplacement (computeVertexNormals lib) gn cnv
                               (- embossDepth configB)
                               ((cylinderRadius configB + embossDepth configB) * 0.9))),
             isProcessing := False\<rparr>"
      using settle_commits [OF b2 ph nc, of br cnv lib gp gn] hm bp bn
      by (simp only: cfg2)
    have inv3: "orchestrator_inv ?s3" using inv2 by (rule inv_step)
    have len3: "length (cycles ?s3) = Suc b" by (simp add: s3 len2)
    have ph3: "phase_of (cycles ?s3 ! b) = Finished" using b2 by (simp add: s3)
    have fin: "length (cycles (run lib es2 ?s3)) = Suc b \<Longrightarrow>
               displayGeoPositive (run lib es2 ?s3) = displayGeoPositive ?s3 \<and>
               displayGeoNegative (run lib es2 ?s3) = displayGeoNegative ?s3" for es2
      using inv3 len3 ph3 by (rule final_stays)
    have "displayGeoPositive ?s3 =
              Some (b, fst (applyDisplacement (computeVertexNormals lib) gp cnv (embossDepth configB)
                              (cylinderRadius configB * 0.9)))"
      by (simp add: s3)
    moreover have "displayGeoNegative ?s3 =
              Some (b, fst (applyDisplacement (computeVertexNormals lib) gn cnv (- embossDepth configB)
                              ((cylinderRadius configB + embossDepth configB) * 0.9)))"
      by (simp add: s3)
    moreover have "\<not> isProcessing ?s3" by (simp add: s3)
    ultimately show ?thesis using fin by blast
  qed
  from cancelled never settle show ?thesis by blast
qed

theorem superseded_cycle_never_commits_witness:
  "cycles (run tiny_three trace_A init_state) \<noteq> [] \<and>
   map_option fst (displayGeoPositive (run tiny_three trace_A init_state)) \<noteq> Some 0 \<and>
   map_option fst (displayGeoNegative (run tiny_three trace_A init_state)) \<noteq> Some 0 \<and>
   isCancelled (cycles (step tiny_three (ConfigArrives config_AB) (run tiny_three trace_A init_state)) ! 0) \<and>
   phase_of (cycles (run tiny_three trace_B
       (step tiny_three (ConfigArrives config_AB) (run tiny_three trace_A init_state))) ! 1) = Rasterizing \<and>
   heightMap_for white_browser config_AB = Inr white_canvas \<and>
   buildCylinderGeometry tiny_three 15 60 0 = Inr (Some (tiny_solid 15 60)) \<and>
   buildCylinderGeometry tiny_three 15.4 60 0 = Inr (Some (tiny_solid 15.4 60)) \<and>
   displayGeoPositive (step tiny_three (RasterSettled 1 white_browser) (run tiny_three trace_B
       (step tiny_three (ConfigArrives config_AB) (run tiny_three trace_A init_state)))) =
     Some (1, fst (applyDisplacement keep_normals (tiny_solid 15 60) white_canvas 0.4 (15 * 0.9))) \<and>
   displayGeoNegative (step tiny_three (RasterSettled 1 white_browser) (run tiny_three trace_B
       (step tiny_three (ConfigArrives config_AB) (run tiny_three trace_A init_state)))) =
     Some (1, fst (applyDisplacement keep_normals (tiny_solid 15.4 60) white_canvas (- 0.4) (15.4 * 0.9))) \<and>
   displayGeoPositive (run tiny_three [RasterSettled 0 white_browser, TimerFire 1]
       (step tiny_three (RasterSettled 1 white_browser) (run tiny_three trace_B
         (step tiny_three (ConfigArrives config_AB) (run tiny_three trace_A init_state))))) =
     Some (1, fst (applyDisplacement keep_normals (tiny_solid 15 60) white_canvas 0.4 (15 * 0.9)))"
proof -
  let ?sA = "run tiny_three trace_A init_state"
  let ?s1 = "step tiny_three (ConfigArrives config_AB) ?sA"
  let ?sB = "run tiny_three trace_B ?s1"
  let ?s3 = "step tiny_three (RasterSettled 1 white_browser) ?sB"
  have lenA: "length (cycles ?sA) = 1" by (simp add: state_A)
  have h1: "cycles ?sA \<noteq> []" by (simp add: state_A)
  have h2: "map_option fst (displayGeoPositive ?sA) \<noteq> Some (length (cycles ?sA) - 1)"
    by (simp add: state_A)
  have h3: "map_option fst (displayGeoNegative ?sA) \<noteq> Some (length (cycles ?sA) - 1)"
    by (simp add: state_A)
  have w2: "map_option fst (displayGeoPositive ?sA) \<noteq> Some 0" by (simp add: state_A)
  have w3: "map_option fst (displayGeoNegative ?sA) \<noteq> Some 0" by (simp add: state_A)
  note inst = superseded_cycle_never_commits [of tiny_three trace_A config_AB, OF h1 h2 h3,
      unfolded lenA diff_self_eq_0]
  have c1: "isCancelled (cycles ?s1 ! 0)" using inst by blast
  have lenB: "length (cycles ?sB) = Suc 1" by (simp add: state_B)
  have phB: "phase_of (cycles ?sB ! 1) = Rasterizing" by (simp add: state_B)
  have hm: "heightMap_for white_browser config_AB = Inr white_canvas" by (rule white_heightMap)
  have bp: "buildCylinderGeometry tiny_three 15 60 0 = Inr (Some (tiny_solid 15 60))"
    by (rule tiny_build) simp_all
  have bn: "buildCylinderGeometry tiny_three 15.4 60 0 = Inr (Some (tiny_solid 15.4 60))"
    by (rule tiny_build) simp_all
  have bp': "buildCylinderGeometry tiny_three (cylinderRadius config_AB) (cylinderHeight config_AB) 0 =
               Inr (Some (tiny_solid 15 60))"
    unfolding config_AB_fields by (rule bp)
  have Rd: "cylinderRadius config_AB + embossDepth config_AB = 15.4"
    by (simp add: config_AB_fields)
  have bn': "buildCylinderGeometry tiny_three (cylinderRadius config_AB + embossDepth config_AB)
               (cylinderHeight config_AB) 0 = Inr (Some (tiny_solid 15.4 60))"
    by (simp only: Rd) (simp only: config_AB_fields bn)
  from inst have settle:
    "displayGeoPositive ?s3 =
       Some (1, fst (applyDisplacement (computeVertexNormals tiny_three) (tiny_solid 15 60) white_canvas
                       (embossDepth config_AB) (cylinderRadius config_AB * 0.9))) \<and>
     displayGeoNegative ?s3 =
       Some (1, fst (applyDisplacement (computeVertexNormals tiny_three) (tiny_solid 15.4 60) white_canvas
                       (- embossDepth config_AB)
                       ((cylinderRadius config_AB + embossDepth config_AB) * 0.9))) \<and>
     \<not> isProcessing ?s3 \<and>
     (\<forall>es2. length (cycles (run tiny_three es2 ?s3)) = Suc 1 \<longrightarrow>
        displayGeoPositive (run tiny_three es2 ?s3) = displayGeoPositive ?s3 \<and>
        displayGeoNegative (run tiny_three es2 ?s3) = displayGeoNegative ?s3)"
    using lenB phB hm bp' bn' by blast
  have p3: "displayGeoPositive ?s3 =
       Some (1, fst (applyDisplacement keep_normals (tiny_solid 15 60) white_canvas 0.4 (15 * 0.9)))"
    using settle by (simp only: config_AB_fields tiny_fields)
  have n3: "displayGeoNegative ?s3 =
       Some (1, fst (applyDisplacement keep_normals (tiny_solid 15.4 60) white_canvas (- 0.4) (15.4 * 0.9)))"
    using settle [unfolded Rd] by (simp only: config_AB_fields tiny_fields)
  have len3: "length (cycles (run tiny_three [RasterSettled 0 white_browser, TimerFire 1] ?s3)) = Suc 1"
    by (simp add: run_Cons run_Nil length_step lenB)
  have "displayGeoPositive (run tiny_three [RasterSettled 0 white_browser, TimerFire 1] ?s3) =
          displayGeoPositive ?s3"
    using settle len3 by blast
  then have f: "displayGeoPositive (run tiny_three [RasterSettled 0 white_browser, TimerFire 1] ?s3) =
       Some (1, fst (applyDisplacement keep_normals (tiny_solid 15 60) white_canvas 0.4 (15 * 0.9)))"
    by (simp only: p3)
  from h1 w2 w3 c1 phB hm bp bn p3 n3 f show ?thesis by blast
qed

text \<open>
  C8. In every state the component can reach in which no mesh pair has been committed
  yet, \<open>handleExport\<close> shows one of its two alerts, so the request neither crashes nor
  passes silently. This is stated for a library whose \<open>mergeGeometries\<close> does not
  yield null for the solids of \<open>buildCylinderGeometry\<close>.
\<close>

theorem export_before_commit_reports:
  assumes "\<forall>r h. buildCylinderGeometry lib r h 0 \<noteq> Inr None"
    and "displayGeoPositive (run lib es init_state) = None \<or>
         displayGeoNegative (run lib es init_state) = None"
  shows "handleExport (run lib es init_state) = Alert ''Please wait for generation to complete.'' \<or>
         handleExport (run lib es init_state) = Alert ''Geometry not ready yet.''"
proof -
  have "isProcessing init_state \<or> \<not> exportFn init_state \<or> groupRef_current init_state"
    by (simp add: init_state_def)
  from export_inv_run [OF assms(1) this, of es]
  have "isProcessing (run lib es init_state) \<or> \<not> exportFn (run lib es init_state)"
    using assms(2) by (auto simp add: groupRef_current_def)
  then show ?thesis by (auto simp add: handleExport_def)
qed

theorem export_before_commit_reports_witness:
  "(\<forall>r h. buildCylinderGeometry tiny_three r h 0 \<noteq> Inr None) \<and>
   displayGeoPositive (run tiny_three trace_A init_state) = None \<and>
   handleExport (run tiny_three trace_A init_state) = Alert ''Please wait for generation to complete.'' \<and>
   displayGeoPositive (run tiny_three [] init_state) = None \<and>
   handleExport (run tiny_three [] init_state) = Alert ''Geometry not ready yet.''"
proof -
  have n: "\<forall>r h. buildCylinderGeometry tiny_three r h 0 \<noteq> Inr None" by (rule tiny_never_null)
  have a: "displayGeoPositive (run tiny_three trace_A init_state) = None \<or>
           displayGeoNegative (run tiny_three trace_A init_state) = None"
    by (simp add: state_A)
  have i: "displayGeoPositive (run tiny_three [] init_state) = None \<or>
           displayGeoNegative (run tiny_three [] init_state) = None"
    by (simp add: run_def init_state_def)
  have "handleExport (run tiny_three trace_A init_state) = Alert ''Please wait for generation to complete.''"
    using export_before_commit_reports [OF n a] by (simp add: state_A handleExport_def)
  moreover have "handleExport (run tiny_three [] init_state) = Alert ''Geometry not ready yet.''"
    using export_before_commit_reports [OF n i] by (simp add: run_def init_state_def handleExport_def)
  moreover have "displayGeoPositive (run tiny_three trace_A init_state) = None" by (simp add: state_A)
  moreover have "displayGeoPositive (run tiny_three [] init_state) = None"
    by (simp add: run_def init_state_def)
  ultimately show ?thesis using n by blast
qed

text \<open>
  C9. If the 2D context cannot be acquired, \<open>generateHeightMap\<close> still returns a
  canvas, of the size asked for, and every pixel of it samples as intensity 0.
  \<open>applyDisplacement\<close> leaves a geometry as it is under this canvas, whether or not a
  context can be had from it later, so the cycle goes on and commits both meshes
  undisplaced.
\<close>

theorem no_context_heightmap:
  assumes "\<not> acquire2d br"
  shows "\<exists>cnv. generateHeightMap br type content w h options = Inr cnv \<and>
           canvas_width cnv = w \<and> canvas_height cnv = h \<and>
           (\<forall>u v. rawHeight_at w h (bitmap cnv) u v = 0) \<and>
           (\<forall>cvn g sc thr. applyDisplacement cvn g cnv sc thr = (g, None)) \<and>
           (\<forall>cvn g sc thr.
              position (fst (applyDisplacement cvn g (cnv\<lparr>has2d := True\<rparr>) sc thr)) = position g) \<and>
           (\<forall>lib k c s gp gn.
              \<not> isCancelled c \<and>
              buildCylinderGeometry lib (cylinderRadius (config_of c)) (cylinderHeight (config_of c)) 0
                = Inr (Some gp) \<and>
              buildCylinderGeometry lib (cylinderRadius (config_of c) + embossDepth (config_of c))
                  (cylinderHeight (config_of c)) 0
                = Inr (Some gn) \<longrightarrow>
              updateGeometry_resume lib k c br s =
                s\<lparr>displayGeoPositive := Some (k, gp), displayGeoNegative := Some (k, gn),
                  isProcessing := False\<rparr>)"
proof -
  define blank where "blank w h = createElement_canvas br w h" for w h
  have g: "generateHeightMap br type content w h options = Inr (blank w h)" for type content w h options
    using assms by (simp add: generateHeightMap_def blank_def Let_def)
  have b: "bitmap (blank w h) = (\<lambda>_. 0)" "canvas_width (blank w h) = w" "canvas_height (blank w h) = h"
    "\<not> has2d (blank w h)" for w h
    using assms by (simp_all add: blank_def createElement_canvas_def)
  have early: "applyDisplacement cvn g (blank w h) sc thr = (g, None)" for cvn g sc thr w h
    using b(4) [of w h] by (simp add: applyDisplacement_def split: option.splits)
  have later: "position (fst (applyDisplacement cvn g ((blank w h)\<lparr>has2d := True\<rparr>) sc thr)) = position g"
    for cvn g sc thr w h
    by (rule applyDisplacement_blank) (simp add: b)
  have hm: "heightMap_for br config = Inr (blank TEXTURE_WIDTH TEXTURE_HEIGHT)" for config
    by (simp add: heightMap_for_def g)
  have cycle: "updateGeometry_resume lib k c br s =
                s\<lparr>displayGeoPositive := Some (k, gp), displayGeoNegative := Some (k, gn),
                  isProcessing := False\<rparr>"
    if nc: "\<not> isCancelled c"
      and bp: "buildCylinderGeometry lib (cylinderRadius (config_of c)) (cylinderHeight (config_of c)) 0
                = Inr (Some gp)"
      and bn: "buildCylinderGeometry lib (cylinderRadius (config_of c) + embossDepth (config_of c))
                  (cylinderHeight (config_of c)) 0 = Inr (Some gn)"
    for lib k c s gp gn
  proof -
    have "updateGeometry_resume lib k c br s =
            commit_meshes lib k False (config_of c) (blank TEXTURE_WIDTH TEXTURE_HEIGHT) s"
      using nc by (simp add: updateGeometry_resume_def hm)
    also have "\<dots> = s\<lparr>displayGeoPositive :=
                Some (k, fst (applyDisplacement (computeVertexNormals lib) gp
                                (blank TEXTURE_WIDTH TEXTURE_HEIGHT) (embossDepth (config_of c))
                                (cylinderRadius (config_of c) * 0.9))),
             displayGeoNegative :=
                Some (k, fst (applyDisplacement (computeVertexNormals lib) gn
                                (blank TEXTURE_WIDTH TEXTURE_HEIGHT) (- embossDepth (config_of c))
                                ((cylinderRadius (config_of c) + embossDepth (config_of c)) * 0.9))),
             isProcessing := False\<rparr>"
      using bp bn by (rule commit_meshes_success) (simp_all only: early snd_conv)
    finally show ?thesis by (simp only: early fst_conv)
  qed
  have first: "generateHeightMap br type content w h options = Inr (blank w h) \<and>
           canvas_width (blank w h) = w \<and> canvas_height (blank w h) = h \<and>
           (\<forall>u v. rawHeight_at w h (bitmap (blank w h)) u v = 0) \<and>
           (\<forall>cvn g sc thr. applyDisplacement cvn g (blank w h) sc thr = (g, None)) \<and>
           (\<forall>cvn g sc thr.
              position (fst (applyDisplacement cvn g ((blank w h)\<lparr>has2d := True\<rparr>) sc thr)) = position g)"
    using g b early later by (simp add: rawHeight_at_blank)
  from first cycle show ?thesis by blast
qed

theorem no_context_heightmap_witness:
  "\<not> acquire2d no_context_browser \<and>
   generateHeightMap no_context_browser TEXT ''AB'' 4096 4096
       \<lparr>o_fontSize = 120, o_fontFamily = None, o_letterSpacing = None, o_spacingX = 20,
        o_spacingY = 120, o_tilt = 0, o_imageScale = 1\<rparr>
     = Inr \<lparr>canvas_width = 4096, canvas_height = 4096, bitmap = (\<lambda>_. 0), has2d = False\<rparr> \<and>
   (\<forall>u v. rawHeight_at 4096 4096 (\<lambda>_. 0) u v = 0) \<and>
   \<not> isCancelled (new_cycle DEFAULT_STATE) \<and>
   updateGeometry_resume tiny_three 0 (new_cycle DEFAULT_STATE) no_context_browser init_state =
     init_state\<lparr>displayGeoPositive := Some (0, tiny_solid 15 60),
                displayGeoNegative := Some (0, tiny_solid 15.4 60), isProcessing := False\<rparr>"
proof -
  let ?o = "\<lparr>o_fontSize = 120, o_fontFamily = None, o_letterSpacing = None, o_spacingX = 20,
        o_spacingY = 120, o_tilt = 0, o_imageScale = 1\<rparr>"
  have n: "\<not> acquire2d no_context_browser" by (simp add: no_context_browser_def)
  have c: "\<not> isCancelled (new_cycle DEFAULT_STATE)" by (simp add: new_cycle_def)
  have cf: "config_of (new_cycle DEFAULT_STATE) = DEFAULT_STATE" by (simp add: new_cycle_def)
  have R: "cylinderRadius DEFAULT_STATE = 15" and d: "embossDepth DEFAULT_STATE = 0.4"
    and H: "cylinderHeight DEFAULT_STATE = 60"
    by (simp_all add: DEFAULT_STATE_def)
  have Rd: "cylinderRadius DEFAULT_STATE + embossDepth DEFAULT_STATE = 15.4" by (simp add: R d)
  have bp: "buildCylinderGeometry tiny_three (cylinderRadius (config_of (new_cycle DEFAULT_STATE)))
              (cylinderHeight (config_of (new_cycle DEFAULT_STATE))) 0 = Inr (Some (tiny_solid 15 60))"
    unfolding cf R H by (rule tiny_build) simp_all
  have bn: "buildCylinderGeometry tiny_three
              (cylinderRadius (config_of (new_cycle DEFAULT_STATE)) +
               embossDepth (config_of (new_cycle DEFAULT_STATE)))
              (cylinderHeight (config_of (new_cycle DEFAULT_STATE))) 0 = Inr (Some (tiny_solid 15.4 60))"
    unfolding cf Rd H by (rule tiny_build) simp_all
  from no_context_heightmap [OF n, of TEXT "''AB''" 4096 4096 ?o]
  obtain cnv where
    g: "generateHeightMap no_context_browser TEXT ''AB'' 4096 4096 ?o = Inr cnv"
    and s: "\<forall>u v. rawHeight_at 4096 4096 (bitmap cnv) u v = 0"
    and u: "\<forall>lib k c s gp gn.
              \<not> isCancelled c \<and>
              buildCylinderGeometry lib (cylinderRadius (config_of c)) (cylinderHeight (config_of c)) 0
                = Inr (Some gp) \<and>
              buildCylinderGeometry lib (cylinderRadius (config_of c) + embossDepth (config_of c))
                  (cylinderHeight (config_of c)) 0
                = Inr (Some gn) \<longrightarrow>
              updateGeometry_resume lib k c no_context_browser s =
                s\<lparr>displayGeoPositive := Some (k, gp), displayGeoNegative := Some (k, gn),
                  isProcessing := False\<rparr>"
    by blast
  have e: "generateHeightMap no_context_browser TEXT ''AB'' 4096 4096 ?o =
      Inr \<lparr>canvas_width = 4096, canvas_height = 4096, bitmap = (\<lambda>_. 0), has2d = False\<rparr>"
    by (simp add: generateHeightMap_def createElement_canvas_def no_context_browser_def)
  have cv: "cnv = \<lparr>canvas_width = 4096, canvas_height = 4096, bitmap = (\<lambda>_. 0), has2d = False\<rparr>"
    using g e by simp
  have s': "\<forall>u v. rawHeight_at 4096 4096 (\<lambda>_. 0) u v = 0" using s by (simp add: cv)
  have r: "updateGeometry_resume tiny_three 0 (new_cycle DEFAULT_STATE) no_context_browser init_state =
     init_state\<lparr>displayGeoPositive := Some (0, tiny_solid 15 60),
                displayGeoNegative := Some (0, tiny_solid 15.4 60), isProcessing := False\<rparr>"
    using u c bp bn by blast
  from n e s' c r show ?thesis by blast
qed

text \<open>
  C10. The plug that \<open>buildCylinderGeometry\<close> merges into the solid is the box of
  width 15, depth 15 and height \<open>max(0.1, height - 30)\<close>. This height is at least 0.1,
  so positive, also for a cylinder height of 30 or less, where it is 0.1.
\<close>

theorem plug_height_clamped:
  "plugHeight h = max 0.1 (h - 30) \<and> 0.1 \<le> plugHeight h \<and> 0 < plugHeight h \<and>
   (h \<le> 30 \<longrightarrow> plugHeight h = 0.1) \<and>
   (\<forall>shell. assignShellUVs radius h [0..<length (position (extrudeUpright lib radius h))]
              (extrudeUpright lib radius h) = Inr shell \<longrightarrow>
      buildCylinderGeometry lib radius h depthOffset =
        Inr (mergeGeometries lib
               [toNonIndexed lib shell,
                toNonIndexed lib (BoxGeometry lib 15 (max 0.1 (h - 30)) 15)]))"
  by (simp add: plugHeight_def buildCylinderGeometry_def Let_def max_def)

theorem plug_height_clamped_witness:
  "plugHeight 20 = 0.1 \<and> plugHeight 60 = 30 \<and>
   buildCylinderGeometry tiny_three 15 20 0 =
     Inr (Some \<lparr>position = [(0, 0, 15), (7.5, 0, 0), (7.5, 0.05, 7.5)],
                normal = Some [(0, 0, 1), (- 1, 0, 0), (0, 1, 0)],
                uv = Some [(0.5, 0.5), (0.25, 0.25), (1, 1)], index = None\<rparr>)"
proof -
  have len: "length (position (extrudeUpright tiny_three 15 20)) = 2" by (simp add: tiny_upright)
  have "buildCylinderGeometry tiny_three 15 20 0 =
        Inr (mergeGeometries tiny_three
          [toNonIndexed tiny_three \<lparr>position = [(0, 0, 15), (7.5, 0, 0)], normal = Some [(0, 0, 1), (- 1, 0, 0)],
             uv = Some [(0.5, 0.5), (0.25, 0.25)], index = None\<rparr>,
           toNonIndexed tiny_three (BoxGeometry tiny_three 15 (max 0.1 (20 - 30)) 15)])"
    using plug_height_clamped [of 20 15 tiny_three 0] tiny_shell_15 by (simp only: len)
  moreover have "plugHeight 20 = 0.1" "plugHeight 60 = 30"
    using plug_height_clamped [of 20 15 tiny_three 0] plug_height_clamped [of 60 15 tiny_three 0]
    by simp_all
  ultimately show ?thesis
    by (simp add: tiny_three_def join_geometries_def keep_normals_def keep_uvs_def)
qed

end
